theory Spec2Isabelle
  imports Complex_Main
begin

section \<open>JavaScript numbers: IEEE-754 binary64\<close>

text \<open>
  Every number of the program is a JavaScript Number, an IEEE-754 double. A double is
  modelled by its sign, its integer significand and its binary exponent: \<open>Fin s m e\<close>
  stands for \<open>(-1)^s * m * 2^e\<close>. The canonical form of a finite double has
  \<open>0 \<le> m < 2^53\<close>, \<open>-1074 \<le> e \<le> 971\<close>, and \<open>e = -1074\<close> whenever
  \<open>m < 2^52\<close> (subnormal numbers and the two zeros).
\<close>

datatype double = NaN | Inf bool | Fin bool int int

definition valid_double :: "double \<Rightarrow> bool" where
  "valid_double d =
     (case d of
        Fin s m e \<Rightarrow> 0 \<le> m \<and> m < 2 ^ 53 \<and> - 1074 \<le> e \<and> e \<le> 971 \<and> (m < 2 ^ 52 \<longrightarrow> e = - 1074)
      | _ \<Rightarrow> True)"

definition is_finite :: "double \<Rightarrow> bool" where
  "is_finite d = (case d of Fin s m e \<Rightarrow> True | _ \<Rightarrow> False)"

text \<open>Number of binary digits of a non-negative integer.\<close>

function bitlen :: "int \<Rightarrow> int" where
  "bitlen n = (if n \<le> 0 then 0 else 1 + bitlen (n div 2))"
  by pat_completeness auto
termination
  by (relation "measure nat") auto

declare bitlen.simps [simp del]

text \<open>\<open>pow2 k\<close> is \<open>2^k\<close> for \<open>k \<ge> 0\<close> and 1 otherwise; \<open>pow10\<close> likewise.\<close>

definition pow2 :: "int \<Rightarrow> int" where
  "pow2 k = 2 ^ nat k"

definition pow10 :: "int \<Rightarrow> int" where
  "pow10 k = 10 ^ nat k"

text \<open>
  \<open>ilog2 p q\<close> is the integer \<open>E\<close> with \<open>2^E \<le> p/q < 2^(E+1)\<close>, for \<open>p, q > 0\<close>.
\<close>

definition ilog2 :: "int \<Rightarrow> int \<Rightarrow> int" where
  "ilog2 p q =
     (let d = bitlen p - bitlen q
      in if q * pow2 d \<le> p * pow2 (- d) then d else d - 1)"

text \<open>
  Rounding to nearest, ties to even: \<open>round_double s p q\<close> is the double nearest to the
  exact rational \<open>(-1)^s * p / q\<close> (\<open>p \<ge> 0\<close>, \<open>q > 0\<close>). A magnitude that rounds to
  \<open>2^1024\<close> or more overflows to infinity; a magnitude that rounds to zero keeps the sign.
\<close>

definition round_double :: "bool \<Rightarrow> int \<Rightarrow> int \<Rightarrow> double" where
  "round_double s p q =
     (if p \<le> 0 then Fin s 0 (- 1074)
      else
        let u = max (ilog2 p q) (- 1022) - 52;
            P = p * pow2 (- u);
            Q = q * pow2 u;
            k = P div Q;
            r = P mod Q;
            k' = (if Q < 2 * r \<or> (2 * r = Q \<and> odd k) then k + 1 else k);
            m = (if k' = 2 ^ 53 then 2 ^ 52 else k');
            e = (if k' = 2 ^ 53 then u + 1 else u)
        in if 971 < e then Inf s else Fin s m e)"

text \<open>The exact value of a finite double as a fraction: numerator and denominator.\<close>

definition num_of :: "int \<Rightarrow> int \<Rightarrow> int" where
  "num_of m e = m * pow2 e"

definition den_of :: "int \<Rightarrow> int" where
  "den_of e = pow2 (- e)"

text \<open>The double of an integer, and of a decimal literal \<open>n / 10^k\<close>.\<close>

definition of_int_d :: "int \<Rightarrow> double" where
  "of_int_d n = round_double (n < 0) \<bar>n\<bar> 1"

definition dec_lit :: "int \<Rightarrow> nat \<Rightarrow> double" where
  "dec_lit n k = round_double (n < 0) \<bar>n\<bar> (10 ^ k)"

subsection \<open>Arithmetic\<close>

definition dneg :: "double \<Rightarrow> double" where
  "dneg d = (case d of NaN \<Rightarrow> NaN | Inf s \<Rightarrow> Inf (\<not> s) | Fin s m e \<Rightarrow> Fin (\<not> s) m e)"

text \<open>
  Addition: the exact sum of two finite doubles is computed over the common exponent and
  rounded once. An exact zero sum is \<open>+0\<close> unless both operands are negative (zeros).
\<close>

definition dadd :: "double \<Rightarrow> double \<Rightarrow> double" where
  "dadd a b =
     (case (a, b) of
        (NaN, _) \<Rightarrow> NaN
      | (_, NaN) \<Rightarrow> NaN
      | (Inf s, Inf t) \<Rightarrow> (if s = t then Inf s else NaN)
      | (Inf s, Fin _ _ _) \<Rightarrow> Inf s
      | (Fin _ _ _, Inf t) \<Rightarrow> Inf t
      | (Fin s m e, Fin t n f) \<Rightarrow>
          (let c = min e f;
               x = (if s then - m else m) * pow2 (e - c);
               y = (if t then - n else n) * pow2 (f - c);
               z = x + y
           in if z = 0 then Fin (s \<and> t) 0 (- 1074)
              else round_double (z < 0) (\<bar>z\<bar> * pow2 c) (pow2 (- c))))"

definition dsub :: "double \<Rightarrow> double \<Rightarrow> double" where
  "dsub a b = dadd a (dneg b)"

definition dmul :: "double \<Rightarrow> double \<Rightarrow> double" where
  "dmul a b =
     (case (a, b) of
        (NaN, _) \<Rightarrow> NaN
      | (_, NaN) \<Rightarrow> NaN
      | (Inf s, Inf t) \<Rightarrow> Inf (s \<noteq> t)
      | (Inf s, Fin t n f) \<Rightarrow> (if n = 0 then NaN else Inf (s \<noteq> t))
      | (Fin s m e, Inf t) \<Rightarrow> (if m = 0 then NaN else Inf (s \<noteq> t))
      | (Fin s m e, Fin t n f) \<Rightarrow>
          round_double (s \<noteq> t) (m * n * pow2 (e + f)) (pow2 (- (e + f))))"

definition ddiv :: "double \<Rightarrow> double \<Rightarrow> double" where
  "ddiv a b =
     (case (a, b) of
        (NaN, _) \<Rightarrow> NaN
      | (_, NaN) \<Rightarrow> NaN
      | (Inf s, Inf t) \<Rightarrow> NaN
      | (Inf s, Fin t n f) \<Rightarrow> Inf (s \<noteq> t)
      | (Fin s m e, Inf t) \<Rightarrow> Fin (s \<noteq> t) 0 (- 1074)
      | (Fin s m e, Fin t n f) \<Rightarrow>
          (if n = 0 then (if m = 0 then NaN else Inf (s \<noteq> t))
           else round_double (s \<noteq> t) (m * pow2 (e - f)) (n * pow2 (f - e))))"

text \<open>
  The comparisons of the language: \<open>x === y\<close> on numbers is false when either side is
  \<open>NaN\<close> and identifies the two zeros; \<open>isNaN\<close> tests for \<open>NaN\<close>.
\<close>

definition is_zero :: "double \<Rightarrow> bool" where
  "is_zero d = (case d of Fin s m e \<Rightarrow> m = 0 | _ \<Rightarrow> False)"

definition strict_eq :: "double \<Rightarrow> double \<Rightarrow> bool" where
  "strict_eq a b =
     (case (a, b) of
        (NaN, _) \<Rightarrow> False
      | (_, NaN) \<Rightarrow> False
      | (Fin s m e, Fin t n f) \<Rightarrow> (m = 0 \<and> n = 0) \<or> (s = t \<and> m * pow2 (e - f) = n * pow2 (f - e))
      | (Inf s, Inf t) \<Rightarrow> s = t
      | _ \<Rightarrow> False)"

definition isNaN :: "double \<Rightarrow> bool" where
  "isNaN d = (d = NaN)"

section \<open>Strings and number formatting of the language\<close>

text \<open>
  A JavaScript string is modelled as a \<open>string\<close> whose characters are code units below
  256 (Latin-1): the operator signs \<open>U+00D7\<close> and \<open>U+00F7\<close>, the sign toggle \<open>U+00B1\<close>
  and the degree sign \<open>U+00B0\<close> are one character each, as they are one UTF-16 code unit
  each in the program.
\<close>

definition digit_char :: "int \<Rightarrow> char" where
  "digit_char d = ''0123456789'' ! nat d"

function dec_digits :: "int \<Rightarrow> string" where
  "dec_digits n = (if n < 10 then [digit_char n] else dec_digits (n div 10) @ [digit_char (n mod 10)])"
  by pat_completeness auto
termination
  by (relation "measure nat") auto

declare dec_digits.simps [simp del]

definition is_digit :: "char \<Rightarrow> bool" where
  "is_digit c = (c \<in> set ''0123456789'')"

definition digit_val :: "char \<Rightarrow> int" where
  "digit_val c = int (of_char c) - 48"

definition digits_val :: "string \<Rightarrow> int" where
  "digits_val ds = foldl (\<lambda>a c. 10 * a + digit_val c) 0 ds"

text \<open>White space and line terminators that \<open>parseFloat\<close> skips (those below 256).\<close>

definition is_whitespace :: "char \<Rightarrow> bool" where
  "is_whitespace c = (c \<in> set [CHR 0x09, CHR 0x0A, CHR 0x0B, CHR 0x0C, CHR 0x0D, CHR 0x20, CHR 0xA0])"

subsection \<open>\<open>Number.prototype.toString\<close>\<close>

text \<open>
  \<open>ge_pow10 p q g\<close> is \<open>10^g \<le> p/q\<close>; \<open>ilog10 p q\<close> is the integer \<open>t\<close> with
  \<open>10^t \<le> p/q < 10^(t+1)\<close>, found from the binary logarithm and corrected by one.
\<close>

definition ge_pow10 :: "int \<Rightarrow> int \<Rightarrow> int \<Rightarrow> bool" where
  "ge_pow10 p q g = (q * pow10 g \<le> p * pow10 (- g))"

definition ilog10 :: "int \<Rightarrow> int \<Rightarrow> int" where
  "ilog10 p q =
     (let g = (ilog2 p q * 30103) div 100000
      in if ge_pow10 p q (g + 1) then g + 1 else if ge_pow10 p q g then g else g - 1)"

text \<open>
  The digits of \<open>toString\<close>: integers \<open>s\<close>, \<open>k\<close>, \<open>n\<close> with \<open>10^(k-1) \<le> s < 10^k\<close>
  such that \<open>s * 10^(n-k)\<close> rounds to the double \<open>x\<close> and \<open>k\<close> is as small as possible;
  among the candidates of that length the one closest to \<open>x\<close>. \<open>candidate\<close> tries one
  length \<open>k\<close>: the values just below and just above \<open>x\<close> with \<open>k\<close> digits.
\<close>

definition candidate :: "double \<Rightarrow> int \<Rightarrow> int \<Rightarrow> int \<Rightarrow> int \<Rightarrow> (int \<times> int) option" where
  "candidate x p q n k =
     (let P = p * pow10 (k - n);
          Q = q * pow10 (n - k);
          lo = P div Q;
          hi = lo + 1;
          lo_ok = (round_double False (lo * pow10 (n - k)) (pow10 (k - n)) = x);
          hi_ok = (round_double False (hi * pow10 (n - k)) (pow10 (k - n)) = x);
          nearer_lo = (2 * P < (2 * lo + 1) * Q \<or> (2 * P = (2 * lo + 1) * Q \<and> even lo))
      in if lo_ok \<and> (\<not> hi_ok \<or> nearer_lo) then Some (lo, n)
         else if hi_ok then (if hi = pow10 k then Some (pow10 (k - 1), n + 1) else Some (hi, n))
         else None)"

fun shortest_digits :: "nat \<Rightarrow> double \<Rightarrow> int \<Rightarrow> int \<Rightarrow> int \<Rightarrow> int \<Rightarrow> int \<times> int \<times> int" where
  "shortest_digits 0 x p q n k = ((p * pow10 (k - n)) div (q * pow10 (n - k)), k, n)"
| "shortest_digits (Suc fuel) x p q n k =
     (case candidate x p q n k of
        Some (s, n') \<Rightarrow> (s, k, n')
      | None \<Rightarrow> shortest_digits fuel x p q n (k + 1))"

text \<open>The layout of the digits: plain decimal for \<open>-6 < n \<le> 21\<close>, exponential otherwise.\<close>

definition format_digits :: "int \<times> int \<times> int \<Rightarrow> string" where
  "format_digits t =
     (case t of (s, k, n) \<Rightarrow>
        let ds = dec_digits s in
        if k \<le> n \<and> n \<le> 21 then ds @ replicate (nat (n - k)) CHR ''0''
        else if 0 < n \<and> n \<le> 21 then take (nat n) ds @ ''.'' @ drop (nat n) ds
        else if - 6 < n \<and> n \<le> 0 then ''0.'' @ replicate (nat (- n)) CHR ''0'' @ ds
        else
          let ex = n - 1;
              es = (if ex < 0 then ''-'' else ''+'') @ dec_digits \<bar>ex\<bar>
          in if k = 1 then ds @ ''e'' @ es
             else take 1 ds @ ''.'' @ drop 1 ds @ ''e'' @ es)"

definition number_to_string :: "double \<Rightarrow> string" where
  "number_to_string d =
     (case d of
        NaN \<Rightarrow> ''NaN''
      | Inf s \<Rightarrow> (if s then ''-Infinity'' else ''Infinity'')
      | Fin s m e \<Rightarrow>
          if m = 0 then ''0''
          else
            let p = num_of m e;
                q = den_of e
            in (if s then ''-'' else '''') @
               format_digits (shortest_digits 17 (Fin False m e) p q (ilog10 p q + 1) 1))"

subsection \<open>\<open>parseFloat\<close>\<close>

text \<open>
  \<open>parse_decimal\<close> reads the longest prefix that is a decimal literal of the language
  (sign, \<open>Infinity\<close> or digits with an optional fraction and exponent) and returns its
  value with the unread rest; \<open>None\<close> when no prefix is a literal.
\<close>

definition parse_exponent :: "string \<Rightarrow> int \<times> string" where
  "parse_exponent s =
     (case s of
        [] \<Rightarrow> (0, s)
      | c # t \<Rightarrow>
          if c = CHR ''e'' \<or> c = CHR ''E'' then
            let neg = (t \<noteq> [] \<and> hd t = CHR ''-'');
                t1 = (if t \<noteq> [] \<and> (hd t = CHR ''-'' \<or> hd t = CHR ''+'') then tl t else t);
                ds = takeWhile is_digit t1
            in if ds = [] then (0, s)
               else ((if neg then - digits_val ds else digits_val ds), dropWhile is_digit t1)
          else (0, s))"

definition parse_decimal :: "string \<Rightarrow> (double \<times> string) option" where
  "parse_decimal s =
     (let neg = (s \<noteq> [] \<and> hd s = CHR ''-'');
          s1 = (if s \<noteq> [] \<and> (hd s = CHR ''-'' \<or> hd s = CHR ''+'') then tl s else s)
      in if take 8 s1 = ''Infinity'' then Some (Inf neg, drop 8 s1)
         else
           let ip = takeWhile is_digit s1;
               r1 = dropWhile is_digit s1;
               has_dot = (r1 \<noteq> [] \<and> hd r1 = CHR ''.'');
               fp = (if has_dot then takeWhile is_digit (tl r1) else []);
               r2 = (if has_dot then dropWhile is_digit (tl r1) else r1)
           in if ip = [] \<and> fp = [] then None
              else
                (case parse_exponent r2 of (ex, r3) \<Rightarrow>
                   let sh = ex - int (length fp)
                   in Some (round_double neg (digits_val (ip @ fp) * pow10 sh) (pow10 (- sh)), r3)))"

definition parseFloat :: "string \<Rightarrow> double" where
  "parseFloat s =
     (case parse_decimal (dropWhile is_whitespace s) of
        None \<Rightarrow> NaN
      | Some (d, rest) \<Rightarrow> d)"

subsection \<open>\<open>Math.round\<close>, \<open>toFixed\<close>, \<open>toExponential\<close>\<close>

text \<open>
  \<open>Math.round x\<close> is \<open>floor (x + 1/2)\<close>, computed exactly; a zero result keeps the sign
  of \<open>x\<close>.
\<close>

definition math_round :: "double \<Rightarrow> double" where
  "math_round d =
     (case d of
        Fin s m e \<Rightarrow>
          let q = den_of e;
              p = (if s then - num_of m e else num_of m e);
              n = (2 * p + q) div (2 * q)
          in if n = 0 then Fin s 0 (- 1074) else round_double (n < 0) \<bar>n\<bar> 1
      | _ \<Rightarrow> d)"

text \<open>
  \<open>x.toFixed(f)\<close>: the integer \<open>n\<close> nearest to \<open>x * 10^f\<close> (the larger of two), printed
  with \<open>f\<close> fraction digits; magnitudes from \<open>10^21\<close> on print as \<open>toString\<close> does.
\<close>

definition to_fixed :: "double \<Rightarrow> nat \<Rightarrow> string" where
  "to_fixed d f =
     (case d of
        Fin s m e \<Rightarrow>
          let p = num_of m e;
              q = den_of e
          in if pow10 21 * q \<le> p then number_to_string d
             else
               let n = (2 * p * 10 ^ f + q) div (2 * q);
                   ds = dec_digits n;
                   padded = replicate (f + 1 - length ds) CHR ''0'' @ ds;
                   k = length padded
               in (if s \<and> m \<noteq> 0 then ''-'' else '''') @
                  (if f = 0 then ds else take (k - f) padded @ ''.'' @ drop (k - f) padded)
      | _ \<Rightarrow> number_to_string d)"

text \<open>
  \<open>x.toExponential(f)\<close>: \<open>n\<close> with \<open>f + 1\<close> digits and \<open>ex\<close> such that \<open>n * 10^(ex-f)\<close>
  is nearest to \<open>x\<close> (the larger of two).
\<close>

definition to_exponential :: "double \<Rightarrow> nat \<Rightarrow> string" where
  "to_exponential d f =
     (case d of
        Fin s m e \<Rightarrow>
          let p = num_of m e;
              q = den_of e;
              e0 = (if m = 0 then 0 else ilog10 p q);
              sc = e0 - int f;
              n0 = (if m = 0 then 0 else (2 * p * pow10 (- sc) + q * pow10 sc) div (2 * q * pow10 sc));
              n = (if n0 = 10 ^ (f + 1) then 10 ^ f else n0);
              ex = (if n0 = 10 ^ (f + 1) then e0 + 1 else e0);
              ds = (if m = 0 then replicate (f + 1) CHR ''0'' else dec_digits n)
          in (if s \<and> m \<noteq> 0 then ''-'' else '''') @
             (if f = 0 then ds else take 1 ds @ ''.'' @ drop 1 ds) @
             ''e'' @ (if ex < 0 then ''-'' else ''+'') @ dec_digits \<bar>ex\<bar>
      | _ \<Rightarrow> number_to_string d)"

text \<open>The size of a string in bytes, as a \<open>Blob\<close> holds it: its UTF-8 encoding.\<close>

definition getByteSize :: "string \<Rightarrow> nat" where
  "getByteSize str = sum_list (map (\<lambda>c. if (of_char c :: nat) < 128 then 1 else 2) str)"

section \<open>The calculator\<close>

text \<open>
  Values of the language that the functions below return: a number, a string, \<open>null\<close>,
  \<open>undefined\<close>, or a function or object reached through the prototype chain (named,
  never called).
\<close>

datatype jsval = JNum double | JStr string | JNull | JUndefined | JFunction string | JObject string

definition truthy :: "jsval \<Rightarrow> bool" where
  "truthy v =
     (case v of
        JNum d \<Rightarrow> \<not> isNaN d \<and> \<not> is_zero d
      | JStr s \<Rightarrow> s \<noteq> []
      | JNull \<Rightarrow> False
      | JUndefined \<Rightarrow> False
      | JFunction f \<Rightarrow> True
      | JObject ob \<Rightarrow> True)"

text \<open>The operator signs and the sign-toggle label of the buttons.\<close>

definition times_sign :: string where
  "times_sign = [CHR 0xD7]"

definition divide_sign :: string where
  "divide_sign = [CHR 0xF7]"

definition plus_minus_sign :: string where
  "plus_minus_sign = [CHR 0xB1]"

subsection \<open>\<open>evaluateOperation\<close>\<close>

definition evaluateOperation :: "double \<Rightarrow> string \<Rightarrow> double \<Rightarrow> jsval" where
  "evaluateOperation firstNum operator secondNum =
     (if operator = ''+'' then JNum (dadd firstNum secondNum)
      else if operator = ''-'' then JNum (dsub firstNum secondNum)
      else if operator = times_sign then JNum (dmul firstNum secondNum)
      else if operator = divide_sign then
        (if \<not> strict_eq secondNum (of_int_d 0) then JNum (ddiv firstNum secondNum) else JStr ''Error'')
      else JNum NaN)"

subsection \<open>The session state and its operations\<close>

text \<open>
  The module's three variables are the fields of the state. \<open>canFitInDisplay\<close> measures
  the laid-out height of the display element in the browser; the measurement is the
  parameter \<open>fits\<close> of every operation that asks for it. \<open>updateDisplay\<close> only writes to
  the page and changes none of the three variables.
\<close>

record calc =
  currentInput :: string
  expression :: string
  shouldResetInput :: bool

definition initial :: calc where
  "initial = \<lparr>currentInput = ''0'', expression = '''', shouldResetInput = False\<rparr>"

definition inputNumber :: "(string \<Rightarrow> bool) \<Rightarrow> string \<Rightarrow> calc \<Rightarrow> calc" where
  "inputNumber fits num st =
     (if shouldResetInput st then
        (if \<not> fits num then st\<lparr>shouldResetInput := False\<rparr>
         else st\<lparr>shouldResetInput := False, currentInput := num\<rparr>)
      else if currentInput st = ''0'' \<and> num \<noteq> ''.'' then
        (if \<not> fits num then st else st\<lparr>currentInput := num\<rparr>)
      else if num = ''.'' \<and> CHR ''.'' \<in> set (currentInput st) then st
      else
        (if \<not> fits (currentInput st @ num) then st
         else st\<lparr>currentInput := currentInput st @ num\<rparr>))"

text \<open>\<open>str.split(" ")\<close>: the pieces between the separators, at least one piece.\<close>

fun split_on :: "char \<Rightarrow> string \<Rightarrow> string list" where
  "split_on c [] = [[]]"
| "split_on c (x # xs) =
     (if x = c then [] # split_on c xs
      else (case split_on c xs of [] \<Rightarrow> [[x]] | p # ps \<Rightarrow> (x # p) # ps))"

text \<open>
  The loop of \<open>calculate\<close> that drops the last character of a result until it fits the
  display or is empty.
\<close>

function truncate_to_fit :: "(string \<Rightarrow> bool) \<Rightarrow> string \<Rightarrow> string" where
  "truncate_to_fit fits truncated =
     (if 0 < length truncated \<and> \<not> fits truncated then truncate_to_fit fits (butlast truncated)
      else truncated)"
  by pat_completeness auto
termination
  by (relation "measure (\<lambda>(fits, truncated). length truncated)") auto

declare truncate_to_fit.simps [simp del]

text \<open>
  \<open>calculate\<close>: \<open>parts[1]\<close> is \<open>undefined\<close> when the expression holds no space, and the
  \<open>switch\<close> of \<open>evaluateOperation\<close> then takes its default branch.
\<close>

definition calculate :: "(string \<Rightarrow> bool) \<Rightarrow> calc \<Rightarrow> calc" where
  "calculate fits st =
     (if expression st = [] then st
      else
        let parts = split_on CHR '' '' (expression st);
            firstNum = parseFloat (parts ! 0);
            secondNum = parseFloat (currentInput st);
            result = (if 1 < length parts then evaluateOperation firstNum (parts ! 1) secondNum
                      else JNum NaN);
            newInput =
              (case result of
                 JNum r \<Rightarrow>
                   let roundedResult = ddiv (math_round (dmul r (of_int_d 1000000000))) (of_int_d 1000000000);
                       resultString = number_to_string roundedResult
                   in if \<not> fits resultString then
                        (let truncated = truncate_to_fit fits resultString
                         in if truncated = [] then ''0'' else truncated)
                      else resultString
               | JStr e \<Rightarrow> e
               | _ \<Rightarrow> [])
        in st\<lparr>currentInput := newInput, expression := '''', shouldResetInput := True\<rparr>)"

definition inputOperator :: "(string \<Rightarrow> bool) \<Rightarrow> string \<Rightarrow> calc \<Rightarrow> calc" where
  "inputOperator fits op st =
     (let st1 = (if expression st \<noteq> [] \<and> \<not> shouldResetInput st then calculate fits st else st)
      in st1\<lparr>expression := currentInput st1 @ '' '' @ op, shouldResetInput := True\<rparr>)"

definition clear :: "calc \<Rightarrow> calc" where
  "clear st = st\<lparr>currentInput := ''0'', expression := '''', shouldResetInput := False\<rparr>"

definition toggleSign :: "(string \<Rightarrow> bool) \<Rightarrow> calc \<Rightarrow> calc" where
  "toggleSign fits st =
     (if currentInput st \<noteq> ''0'' then
        (let newInput = (if take 1 (currentInput st) = ''-'' then drop 1 (currentInput st)
                         else ''-'' @ currentInput st)
         in if \<not> fits newInput then st else st\<lparr>currentInput := newInput\<rparr>)
      else st)"

definition percentage :: "calc \<Rightarrow> calc" where
  "percentage st =
     st\<lparr>currentInput := number_to_string (ddiv (parseFloat (currentInput st)) (of_int_d 100))\<rparr>"

definition backspace :: "calc \<Rightarrow> calc" where
  "backspace st =
     (if 1 < length (currentInput st) then st\<lparr>currentInput := butlast (currentInput st)\<rparr>
      else st\<lparr>currentInput := ''0''\<rparr>)"

definition handleButtonClick :: "(string \<Rightarrow> bool) \<Rightarrow> string \<Rightarrow> calc \<Rightarrow> calc" where
  "handleButtonClick fits v st =
     (if v = ''C'' then clear st
      else if v = plus_minus_sign then toggleSign fits st
      else if v = ''%'' then percentage st
      else if v = ''+'' \<or> v = ''-'' \<or> v = times_sign \<or> v = divide_sign then inputOperator fits v st
      else if v = ''='' then calculate fits st
      else inputNumber fits v st)"

subsection \<open>The keyboard\<close>

text \<open>
  \<open>keyMap\<close> is an object literal; \<open>keyMap[key]\<close> reads an own property first and then
  the properties every object inherits from \<open>Object.prototype\<close>.
\<close>

definition keyMap :: "(string \<times> string) list" where
  "keyMap =
     [(''0'', ''0''), (''1'', ''1''), (''2'', ''2''), (''3'', ''3''), (''4'', ''4''),
      (''5'', ''5''), (''6'', ''6''), (''7'', ''7''), (''8'', ''8''), (''9'', ''9''),
      (''.'', ''.''), ('','', ''.''), (''+'', ''+''), (''-'', ''-''),
      (''*'', times_sign), (''x'', times_sign), (''X'', times_sign), (''/'', divide_sign),
      (''Enter'', ''=''), (''='', ''=''),
      (''Escape'', ''C''), (''c'', ''C''), (''C'', ''C''), (''Delete'', ''C''),
      (''%'', ''%''), (''Backspace'', ''Backspace'')]"

definition object_prototype :: "(string \<times> jsval) list" where
  "object_prototype =
     [(''constructor'', JFunction ''Object''),
      (''hasOwnProperty'', JFunction ''hasOwnProperty''),
      (''isPrototypeOf'', JFunction ''isPrototypeOf''),
      (''propertyIsEnumerable'', JFunction ''propertyIsEnumerable''),
      (''toLocaleString'', JFunction ''toLocaleString''),
      (''toString'', JFunction ''toString''),
      (''valueOf'', JFunction ''valueOf''),
      (''__defineGetter__'', JFunction ''__defineGetter__''),
      (''__defineSetter__'', JFunction ''__defineSetter__''),
      (''__lookupGetter__'', JFunction ''__lookupGetter__''),
      (''__lookupSetter__'', JFunction ''__lookupSetter__''),
      (''__proto__'', JObject ''Object.prototype'')]"

definition mapKeyToValue :: "string \<Rightarrow> jsval" where
  "mapKeyToValue key =
     (let v = (case map_of keyMap key of
                 Some t \<Rightarrow> JStr t
               | None \<Rightarrow> (case map_of object_prototype key of Some w \<Rightarrow> w | None \<Rightarrow> JUndefined))
      in if truthy v then v else JNull)"

text \<open>
  \<open>handleKeyboard\<close> after the key is mapped, and a button click: one token of the
  vocabulary applied to the state.
\<close>

definition press :: "(string \<Rightarrow> bool) \<Rightarrow> string \<Rightarrow> calc \<Rightarrow> calc" where
  "press fits v st = (if v = ''Backspace'' then backspace st else handleButtonClick fits v st)"

definition run :: "(string \<Rightarrow> bool) \<Rightarrow> string list \<Rightarrow> calc \<Rightarrow> calc" where
  "run fits vs st = foldl (\<lambda>s v. press fits v s) st vs"

section \<open>The converter\<close>

record unit_def =
  name :: string
  abbr :: string
  factor :: "double option"

definition linear_unit :: "string \<Rightarrow> string \<Rightarrow> double \<Rightarrow> unit_def" where
  "linear_unit n a f = \<lparr>name = n, abbr = a, factor = Some f\<rparr>"

definition degree_sign :: string where
  "degree_sign = [CHR 0xB0]"

definition micro_sign :: string where
  "micro_sign = [CHR 0xB5]"

definition cubed_sign :: string where
  "cubed_sign = [CHR 0xB3]"

definition length_units :: "unit_def list" where
  "length_units =
     [linear_unit ''Millimeter'' ''mm'' (dec_lit 1 3),
      linear_unit ''Centimeter'' ''cm'' (dec_lit 1 2),
      linear_unit ''Decimeter'' ''dm'' (dec_lit 1 1),
      linear_unit ''Meter'' ''m'' (of_int_d 1),
      linear_unit ''Decameter'' ''dam'' (of_int_d 10),
      linear_unit ''Hectometer'' ''hm'' (of_int_d 100),
      linear_unit ''Kilometer'' ''km'' (of_int_d 1000),
      linear_unit ''Inch'' ''in'' (dec_lit 254 4),
      linear_unit ''Foot'' ''ft'' (dec_lit 3048 4),
      linear_unit ''Yard'' ''yd'' (dec_lit 9144 4),
      linear_unit ''Mile'' ''mi'' (dec_lit 1609344 3),
      linear_unit ''Nautical Mile'' ''nmi'' (of_int_d 1852)]"

definition mass_units :: "unit_def list" where
  "mass_units =
     [linear_unit ''Milligram'' ''mg'' (dec_lit 1 3),
      linear_unit ''Centigram'' ''cg'' (dec_lit 1 2),
      linear_unit ''Decigram'' ''dg'' (dec_lit 1 1),
      linear_unit ''Gram'' ''g'' (of_int_d 1),
      linear_unit ''Decagram'' ''dag'' (of_int_d 10),
      linear_unit ''Hectogram'' ''hg'' (of_int_d 100),
      linear_unit ''Kilogram'' ''kg'' (of_int_d 1000),
      linear_unit ''Metric Ton'' ''t'' (of_int_d 1000000),
      linear_unit ''Ounce'' ''oz'' (dec_lit 283495 4),
      linear_unit ''Pound'' ''lb'' (dec_lit 453592 3),
      linear_unit ''Stone'' ''st'' (dec_lit 635029 2)]"

definition temperature_units :: "unit_def list" where
  "temperature_units =
     [\<lparr>name = ''Celsius'', abbr = degree_sign @ ''C'', factor = None\<rparr>,
      \<lparr>name = ''Fahrenheit'', abbr = degree_sign @ ''F'', factor = None\<rparr>,
      \<lparr>name = ''Kelvin'', abbr = ''K'', factor = None\<rparr>]"

definition volume_units :: "unit_def list" where
  "volume_units =
     [linear_unit ''Milliliter'' ''ml'' (dec_lit 1 3),
      linear_unit ''Centiliter'' ''cl'' (dec_lit 1 2),
      linear_unit ''Deciliter'' ''dl'' (dec_lit 1 1),
      linear_unit ''Liter'' ''L'' (of_int_d 1),
      linear_unit ''Decaliter'' ''dal'' (of_int_d 10),
      linear_unit ''Hectoliter'' ''hl'' (of_int_d 100),
      linear_unit ''Cubic Meter'' (''m'' @ cubed_sign) (of_int_d 1000),
      linear_unit ''Fluid Ounce'' ''fl oz'' (dec_lit 295735 7),
      linear_unit ''Cup'' ''cup'' (dec_lit 236588 6),
      linear_unit ''Pint'' ''pt'' (dec_lit 473176 6),
      linear_unit ''Quart'' ''qt'' (dec_lit 946353 6),
      linear_unit ''Gallon'' ''gal'' (dec_lit 378541 5)]"

definition time_units :: "unit_def list" where
  "time_units =
     [linear_unit ''Nanosecond'' ''ns'' (dec_lit 1 9),
      linear_unit ''Microsecond'' (micro_sign @ ''s'') (dec_lit 1 6),
      linear_unit ''Millisecond'' ''ms'' (dec_lit 1 3),
      linear_unit ''Second'' ''s'' (of_int_d 1),
      linear_unit ''Minute'' ''min'' (of_int_d 60),
      linear_unit ''Hour'' ''h'' (of_int_d 3600),
      linear_unit ''Day'' ''d'' (of_int_d 86400),
      linear_unit ''Week'' ''wk'' (of_int_d 604800),
      linear_unit ''Month'' ''mo'' (of_int_d 2629746),
      linear_unit ''Year'' ''yr'' (of_int_d 31556952)]"

definition UNIT_DEFINITIONS :: "(string \<times> unit_def list) list" where
  "UNIT_DEFINITIONS =
     [(''length'', length_units), (''mass'', mass_units), (''temperature'', temperature_units),
      (''volume'', volume_units), (''time'', time_units)]"

text \<open>
  \<open>units[index]\<close> for a number \<open>index\<close>: the element when the number is an integer from
  \<open>0\<close> (either zero) below the length, \<open>undefined\<close> otherwise.
\<close>

definition array_index :: "double \<Rightarrow> nat option" where
  "array_index d =
     (case d of
        Fin s m e \<Rightarrow>
          if m = 0 then Some 0
          else if s \<or> m < 0 then None
          else if 0 \<le> e then Some (nat (m * pow2 e))
          else if m mod pow2 (- e) = 0 then Some (nat (m div pow2 (- e)))
          else None
      | _ \<Rightarrow> None)"

definition array_get :: "'a list \<Rightarrow> double \<Rightarrow> 'a option" where
  "array_get xs d =
     (case array_index d of
        None \<Rightarrow> None
      | Some i \<Rightarrow> if i < length xs then Some (xs ! i) else None)"

text \<open>
  A missing \<open>factor\<close> is \<open>undefined\<close>, which arithmetic turns into \<open>NaN\<close>.
\<close>

definition factor_num :: "unit_def \<Rightarrow> double" where
  "factor_num u = (case factor u of None \<Rightarrow> NaN | Some f \<Rightarrow> f)"

text \<open>
  \<open>UNIT_DEFINITIONS[category]\<close> is a unit list for the five categories. For a name
  inherited from \<open>Object.prototype\<close> it is a function or object, which is truthy and has
  no element at any numeric index: under \<open>units[index]\<close> it behaves as the empty list.
  For any other name it is \<open>undefined\<close>.
\<close>

definition lookup_units :: "string \<Rightarrow> unit_def list option" where
  "lookup_units category =
     (case map_of UNIT_DEFINITIONS category of
        Some units \<Rightarrow> Some units
      | None \<Rightarrow> (case map_of object_prototype category of Some w \<Rightarrow> Some [] | None \<Rightarrow> None))"

text \<open>
  The two steps of the temperature branch. \<open>to_celsius\<close> leaves \<open>celsius\<close> unassigned
  (\<open>None\<close>) for an abbreviation that is none of the three; \<open>from_celsius\<close> returns
  nothing (\<open>None\<close>) for such a target, and the function then falls through to the
  standard conversion. Arithmetic on the unassigned \<open>celsius\<close> gives \<open>NaN\<close>; the
  unassigned value itself, returned for a Celsius target, is modelled as \<open>NaN\<close> too.
  Every temperature unit of the catalog has one of the three abbreviations.
\<close>

definition to_celsius :: "string \<Rightarrow> double \<Rightarrow> double option" where
  "to_celsius a v =
     (if a = degree_sign @ ''C'' then Some v
      else if a = degree_sign @ ''F'' then
        Some (ddiv (dmul (dsub v (of_int_d 32)) (of_int_d 5)) (of_int_d 9))
      else if a = ''K'' then Some (dsub v (dec_lit 27315 2))
      else None)"

definition from_celsius :: "string \<Rightarrow> double option \<Rightarrow> double option" where
  "from_celsius a celsius =
     (let c = (case celsius of None \<Rightarrow> NaN | Some x \<Rightarrow> x)
      in if a = degree_sign @ ''C'' then Some c
         else if a = degree_sign @ ''F'' then
           Some (dadd (ddiv (dmul c (of_int_d 9)) (of_int_d 5)) (of_int_d 32))
         else if a = ''K'' then Some (dadd c (dec_lit 27315 2))
         else None)"

definition convertValue :: "double \<Rightarrow> double \<Rightarrow> double \<Rightarrow> string \<Rightarrow> double" where
  "convertValue v fromIndex toIndex category =
     (if isNaN v then of_int_d 0
      else
        (case lookup_units category of
           None \<Rightarrow> of_int_d 0
         | Some units \<Rightarrow>
             (case (array_get units fromIndex, array_get units toIndex) of
                (Some fromUnit, Some toUnit) \<Rightarrow>
                  let standard = ddiv (dmul v (factor_num fromUnit)) (factor_num toUnit)
                  in if category = ''temperature'' then
                       (case from_celsius (abbr toUnit) (to_celsius (abbr fromUnit) v) of
                          Some r \<Rightarrow> r
                        | None \<Rightarrow> standard)
                     else standard
              | _ \<Rightarrow> of_int_d 0)))"

subsection \<open>\<open>limitOutputSize\<close>\<close>

text \<open>
  The loop that lowers the precision from 10 to 0 while the string is over 8 bytes; its
  state is the three variables \<open>valueString\<close>, \<open>byteSize\<close> and \<open>precision\<close>.
\<close>

function precision_loop :: "double \<Rightarrow> string \<times> nat \<times> int \<Rightarrow> string \<times> nat \<times> int" where
  "precision_loop v (valueString, byteSize, precision) =
     (if 8 < byteSize \<and> 0 \<le> precision then
        (let valueString' = number_to_string (parseFloat (to_fixed v (nat precision)))
         in precision_loop v (valueString', getByteSize valueString', precision - 1))
      else (valueString, byteSize, precision))"
  by pat_completeness auto
termination
  by (relation "measure (\<lambda>(v, valueString, byteSize, precision). nat (precision + 1))") auto

declare precision_loop.simps [simp del]

definition limitOutputSize :: "double \<Rightarrow> string" where
  "limitOutputSize v =
     (if isNaN v then ''''
      else
        let valueString = number_to_string v;
            byteSize = getByteSize valueString
        in if 8 < byteSize then
             (case precision_loop v (valueString, byteSize, 10) of
                (valueString1, byteSize1, precision1) \<Rightarrow>
                  if 8 < byteSize1 then
                    (let valueString2 = to_exponential v 2;
                         byteSize2 = getByteSize valueString2
                     in if 8 < byteSize2 then take 7 valueString2 else valueString2)
                  else valueString1)
           else valueString)"

section \<open>Notions used to state the properties\<close>

text \<open>
  A display that holds up to \<open>n\<close> characters: a stand-in for the browser's measurement
  in closed examples.
\<close>

definition display_of_width :: "nat \<Rightarrow> string \<Rightarrow> bool" where
  "display_of_width n s = (length s \<le> n)"

text \<open>The state right after an equals that divided by zero.\<close>

definition error_state :: calc where
  "error_state = \<lparr>currentInput = ''Error'', expression = '''', shouldResetInput = True\<rparr>"

text \<open>
  A valid numeric literal: a text that the number parser of the language reads to its
  end.
\<close>

definition is_numeric_literal :: "string \<Rightarrow> bool" where
  "is_numeric_literal s = (case parse_decimal s of None \<Rightarrow> False | Some (d, rest) \<Rightarrow> rest = [])"

text \<open>The tokens of digit and decimal entry.\<close>

definition entry_tokens :: "string list" where
  "entry_tokens = map (\<lambda>c. [c]) ''0123456789.''"

text \<open>
  The forms of \<open>currentInput\<close> while an operand is typed: digits with at most one
  decimal point after the first digit, and the same after an optional minus sign. A
  session is \<open>editing\<close> when the reset flag is down and the input has the form.
\<close>

definition unsigned_lit :: "string \<Rightarrow> bool" where
  "unsigned_lit s =
     (\<exists>a b. a \<noteq> [] \<and> list_all is_digit a \<and> list_all is_digit b \<and> (s = a \<or> s = a @ CHR ''.'' # b))"

definition signed_lit :: "string \<Rightarrow> bool" where
  "signed_lit s = (unsigned_lit s \<or> (\<exists>t. s = ''-'' @ t \<and> unsigned_lit t))"

definition editing :: "calc \<Rightarrow> bool" where
  "editing st = (\<not> shouldResetInput st \<and> unsigned_lit (currentInput st))"

definition signed_editing :: "calc \<Rightarrow> bool" where
  "signed_editing st = (\<not> shouldResetInput st \<and> signed_lit (currentInput st))"

text \<open>A text of one-byte characters only.\<close>

definition ascii :: "string \<Rightarrow> bool" where
  "ascii s = list_all (\<lambda>c. (of_char c :: nat) < 128) s"

section \<open>Properties of \<open>evaluateOperation\<close>\<close>

lemma pow2_pos: "0 < pow2 k"
  by (simp add: pow2_def)

lemma of_int_d_0: "of_int_d 0 = Fin False 0 (- 1074)"
  by (simp add: of_int_d_def round_double_def)

lemma strict_eq_zero: "strict_eq b (of_int_d 0) = is_zero b"
proof (cases b)
  case (Fin s m e)
  have "m * pow2 (e + 1074) = 0 \<longleftrightarrow> m = 0"
    using pow2_pos [of "e + 1074"] by simp
  then show ?thesis
    using Fin by (auto simp: of_int_d_0 strict_eq_def is_zero_def)
qed (simp_all add: of_int_d_0 strict_eq_def is_zero_def)

lemma sign_distinct:
  "times_sign \<noteq> ''+''" "times_sign \<noteq> ''-''" "divide_sign \<noteq> ''+''" "divide_sign \<noteq> ''-''"
  "divide_sign \<noteq> times_sign"
  by (simp_all add: times_sign_def divide_sign_def)

text \<open>
  The arithmetic of the model is the rounded arithmetic of binary64, not that of the
  rationals: \<open>0.1 + 0.2\<close> is the double above \<open>0.3\<close>, and \<open>1 / 3\<close> is rounded to 53 bits.
\<close>

lemma dadd_rounds: "dadd (dec_lit 1 1) (dec_lit 2 1) = Fin False 5404319552844596 (- 54)"
  by code_simp

lemma dec_lit_3_10: "dec_lit 3 1 = Fin False 5404319552844595 (- 54)"
  by code_simp

lemma ddiv_rounds: "ddiv (of_int_d 1) (of_int_d 3) = Fin False 6004799503160661 (- 54)"
  by code_simp

text \<open>
  C1. For all doubles \<open>a\<close> and \<open>b\<close>, \<open>evaluateOperation\<close> returns the IEEE-754 sum for
  \<open>+\<close>, the difference for \<open>-\<close>, the product for the multiplication sign and, when
  \<open>b\<close> is not a zero, the quotient for the division sign.
\<close>

theorem evaluateOperation_ieee:
  "evaluateOperation a ''+'' b = JNum (dadd a b) \<and>
   evaluateOperation a ''-'' b = JNum (dsub a b) \<and>
   evaluateOperation a times_sign b = JNum (dmul a b) \<and>
   (\<not> is_zero b \<longrightarrow> evaluateOperation a divide_sign b = JNum (ddiv a b))"
  by (simp add: evaluateOperation_def strict_eq_zero sign_distinct)

theorem evaluateOperation_ieee_witness:
  "\<not> is_zero (of_int_d 2) \<and>
   evaluateOperation (of_int_d 7) divide_sign (of_int_d 2) = JNum (dec_lit 35 1)"
proof -
  have nz: "\<not> is_zero (of_int_d 2)"
    by code_simp
  have q: "ddiv (of_int_d 7) (of_int_d 2) = dec_lit 35 1"
    by code_simp
  from evaluateOperation_ieee [of "of_int_d 7" "of_int_d 2"] nz q show ?thesis
    by simp
qed

text \<open>
  C2. \<open>evaluateOperation\<close> returns the string \<open>Error\<close> exactly when the operator is the
  division sign and \<open>b\<close> is a zero (of either sign, for every \<open>a\<close>), and returns \<open>NaN\<close>
  for every operator outside the four signs. The function has no failing branch: it
  returns a value on every input.
\<close>

theorem evaluateOperation_error:
  "(evaluateOperation a op b = JStr ''Error'' \<longleftrightarrow> op = divide_sign \<and> is_zero b) \<and>
   (op \<notin> {''+'', ''-'', times_sign, divide_sign} \<longrightarrow> evaluateOperation a op b = JNum NaN)"
  by (auto simp: evaluateOperation_def strict_eq_zero sign_distinct)

theorem evaluateOperation_error_witness:
  "''%'' \<notin> {''+'', ''-'', times_sign, divide_sign} \<and>
   evaluateOperation (of_int_d 1) ''%'' (of_int_d 2) = JNum NaN \<and>
   evaluateOperation (of_int_d 0) divide_sign (Fin True 0 (- 1074)) = JStr ''Error''"
proof -
  have out: "''%'' \<notin> {''+'', ''-'', times_sign, divide_sign}"
    by (simp add: times_sign_def divide_sign_def)
  have z: "is_zero (Fin True 0 (- 1074))"
    by (simp add: is_zero_def)
  from evaluateOperation_error [of "of_int_d 1" "''%''" "of_int_d 2"]
       evaluateOperation_error [of "of_int_d 0" divide_sign "Fin True 0 (- 1074)"] out z
  show ?thesis by simp
qed

section \<open>Properties of the keyboard mapping\<close>

lemma mapKeyToValue_mapped:
  "map_of keyMap key = Some t \<Longrightarrow> mapKeyToValue key = JStr t"
  by (auto simp: mapKeyToValue_def keyMap_def truthy_def times_sign_def divide_sign_def
      split: if_splits)

lemma mapKeyToValue_unmapped:
  "map_of keyMap key = None \<Longrightarrow> map_of object_prototype key = None \<Longrightarrow> mapKeyToValue key = JNull"
  by (simp add: mapKeyToValue_def truthy_def)

text \<open>
  C9. A mapped key gives its token and a key that is neither mapped nor the name of an
  inherited property gives \<open>null\<close> (the two lemmas above). The key \<open>constructor\<close> is not
  in the mapped vocabulary, and the lookup finds the inherited property: the function
  returns that function object, not \<open>null\<close>.
\<close>

theorem mapKeyToValue_constructor:
  "map_of keyMap ''constructor'' = None \<and> mapKeyToValue ''constructor'' = JFunction ''Object''"
  by (simp add: mapKeyToValue_def keyMap_def object_prototype_def truthy_def)

section \<open>Properties of the session\<close>

lemma run_Nil: "run fits [] st = st"
  by (simp add: run_def)

lemma run_Cons: "run fits (v # vs) st = run fits vs (press fits v st)"
  by (simp add: run_def)

text \<open>
  C10, as stated: after a division by zero the first digit is appended to \<open>Error\<close>. It is
  not: the equals set the reset flag, and \<open>inputNumber\<close> tests the flag first.
\<close>

theorem digit_after_error_appends_counterexample:
  "calculate (display_of_width 16)
     \<lparr>currentInput = ''0'', expression = ''5 '' @ divide_sign, shouldResetInput = False\<rparr> = error_state \<and>
   currentInput (inputNumber (display_of_width 16) ''7'' error_state) \<noteq> ''Error7''"
  by code_simp

text \<open>
  C10, amended: in the state right after a division-by-zero equals, a digit that fits
  the display replaces the text \<open>Error\<close> and clears the reset flag.
\<close>

theorem digit_after_error_replaces:
  "fits d \<Longrightarrow>
   inputNumber fits d error_state = \<lparr>currentInput = d, expression = '''', shouldResetInput = False\<rparr>"
  by (simp add: inputNumber_def error_state_def)

theorem digit_after_error_replaces_witness:
  "display_of_width 16 ''7'' \<and>
   inputNumber (display_of_width 16) ''7'' error_state =
     \<lparr>currentInput = ''7'', expression = '''', shouldResetInput = False\<rparr>"
proof -
  have f: "display_of_width 16 ''7''"
    by (simp add: display_of_width_def)
  from digit_after_error_replaces [of "display_of_width 16" "''7''"] f show ?thesis
    by simp
qed

subsection \<open>Chain evaluation\<close>

lemma press_digit:
  "v \<in> set entry_tokens \<Longrightarrow> press fits v st = inputNumber fits v st"
  by (auto simp: entry_tokens_def press_def handleButtonClick_def plus_minus_sign_def
      times_sign_def divide_sign_def)

lemma press_plus: "press fits ''+'' st = inputOperator fits ''+'' st"
  by (simp add: press_def handleButtonClick_def plus_minus_sign_def)

lemma press_equals: "press fits ''='' st = calculate fits st"
  by (simp add: press_def handleButtonClick_def plus_minus_sign_def times_sign_def divide_sign_def)

lemma split_5_plus: "split_on CHR '' '' ''5 +'' = [''5'', ''+'']"
  by simp

lemma split_8_plus: "split_on CHR '' '' ''8 +'' = [''8'', ''+'']"
  by simp

lemma sum_5_3:
  "number_to_string (ddiv (math_round (dmul (dadd (parseFloat ''5'') (parseFloat ''3''))
      (of_int_d 1000000000))) (of_int_d 1000000000)) = ''8''"
  by code_simp

lemma sum_8_2:
  "number_to_string (ddiv (math_round (dmul (dadd (parseFloat ''8'') (parseFloat ''2''))
      (of_int_d 1000000000))) (of_int_d 1000000000)) = ''10''"
  by code_simp

lemma calculate_5_plus_3:
  "fits ''8'' \<Longrightarrow>
   calculate fits \<lparr>currentInput = ''3'', expression = ''5 +'', shouldResetInput = False\<rparr> =
     \<lparr>currentInput = ''8'', expression = '''', shouldResetInput = True\<rparr>"
  by (simp add: calculate_def Let_def evaluateOperation_def sum_5_3 del: split_on.simps add: split_5_plus)

lemma calculate_8_plus_2:
  "fits ''10'' \<Longrightarrow>
   calculate fits \<lparr>currentInput = ''2'', expression = ''8 +'', shouldResetInput = False\<rparr> =
     \<lparr>currentInput = ''10'', expression = '''', shouldResetInput = True\<rparr>"
  by (simp add: calculate_def Let_def evaluateOperation_def sum_8_2 del: split_on.simps add: split_8_plus)

text \<open>
  C3. From the cleared state the tokens \<open>5 + 3 + 2 =\<close> leave \<open>10\<close> in \<open>currentInput\<close>:
  the second \<open>+\<close> evaluates \<open>5 + 3\<close> to \<open>8\<close>, the equals evaluates \<open>8 + 2\<close>. The texts the
  session shows on the way (\<open>5\<close>, \<open>3\<close>, \<open>8\<close>, \<open>2\<close>, \<open>10\<close>) are assumed to fit the display,
  which the program asks the browser.
\<close>

theorem chain_evaluation:
  assumes "fits ''5''" "fits ''3''" "fits ''8''" "fits ''2''" "fits ''10''"
  shows "currentInput (run fits [''5'', ''+'', ''3'', ''+'', ''2'', ''=''] initial) = ''10''"
proof -
  have s1: "press fits ''5'' initial = \<lparr>currentInput = ''5'', expression = '''', shouldResetInput = False\<rparr>"
    using assms by (simp add: press_digit entry_tokens_def inputNumber_def initial_def)
  have s2: "press fits ''+'' \<lparr>currentInput = ''5'', expression = '''', shouldResetInput = False\<rparr> =
      \<lparr>currentInput = ''5'', expression = ''5 +'', shouldResetInput = True\<rparr>"
    by (simp add: press_plus inputOperator_def)
  have s3: "press fits ''3'' \<lparr>currentInput = ''5'', expression = ''5 +'', shouldResetInput = True\<rparr> =
      \<lparr>currentInput = ''3'', expression = ''5 +'', shouldResetInput = False\<rparr>"
    using assms by (simp add: press_digit entry_tokens_def inputNumber_def)
  have s4: "press fits ''+'' \<lparr>currentInput = ''3'', expression = ''5 +'', shouldResetInput = False\<rparr> =
      \<lparr>currentInput = ''8'', expression = ''8 +'', shouldResetInput = True\<rparr>"
    using assms by (simp add: press_plus inputOperator_def calculate_5_plus_3)
  have s5: "press fits ''2'' \<lparr>currentInput = ''8'', expression = ''8 +'', shouldResetInput = True\<rparr> =
      \<lparr>currentInput = ''2'', expression = ''8 +'', shouldResetInput = False\<rparr>"
    using assms by (simp add: press_digit entry_tokens_def inputNumber_def)
  have s6: "press fits ''='' \<lparr>currentInput = ''2'', expression = ''8 +'', shouldResetInput = False\<rparr> =
      \<lparr>currentInput = ''10'', expression = '''', shouldResetInput = True\<rparr>"
    using assms by (simp add: press_equals calculate_8_plus_2)
  show ?thesis
    by (simp add: run_Cons run_Nil s1 s2 s3 s4 s5 s6)
qed

theorem chain_evaluation_witness:
  "display_of_width 16 ''5'' \<and> display_of_width 16 ''3'' \<and> display_of_width 16 ''8'' \<and>
   display_of_width 16 ''2'' \<and> display_of_width 16 ''10'' \<and>
   currentInput (run (display_of_width 16) [''5'', ''+'', ''3'', ''+'', ''2'', ''=''] initial) = ''10''"
proof -
  have f: "display_of_width 16 ''5''" "display_of_width 16 ''3''" "display_of_width 16 ''8''"
    "display_of_width 16 ''2''" "display_of_width 16 ''10''"
    by (simp_all add: display_of_width_def)
  from chain_evaluation [of "display_of_width 16", OF f] f show ?thesis
    by simp
qed

subsection \<open>The form of the input\<close>

lemma is_digit_not_special:
  "is_digit c \<Longrightarrow> c \<noteq> CHR ''-'' \<and> c \<noteq> CHR ''+'' \<and> c \<noteq> CHR ''.'' \<and> c \<noteq> CHR ''I''"
  by (auto simp: is_digit_def)

lemma not_digit_dot: "\<not> is_digit CHR ''.''"
  by (simp add: is_digit_def)

lemma parse_exponent_Nil: "parse_exponent [] = (0, [])"
  by (simp add: parse_exponent_def)

lemma digits_not_Infinity:
  assumes "a \<noteq> []" "list_all is_digit a"
  shows "take 8 (a @ r) \<noteq> ''Infinity''"
proof -
  obtain c a' where a: "a = c # a'"
    using assms(1) by (cases a) auto
  with assms(2) have "is_digit c" by simp
  then have "c \<noteq> CHR ''I''" by (simp add: is_digit_not_special)
  then show ?thesis by (simp add: a)
qed

lemma parse_decimal_digits:
  assumes "a \<noteq> []" "list_all is_digit a"
  shows "\<exists>d. parse_decimal a = Some (d, [])"
proof -
  obtain c a' where a: "a = c # a'"
    using assms(1) by (cases a) auto
  with assms(2) have c: "is_digit c" by simp
  have hd: "hd a \<noteq> CHR ''-''" "hd a \<noteq> CHR ''+''"
    using c a by (simp_all add: is_digit_not_special)
  have inf: "take 8 a \<noteq> ''Infinity''"
    using digits_not_Infinity [OF assms, of "[]"] by simp
  have tw: "takeWhile is_digit a = a" "dropWhile is_digit a = []"
    using assms(2) by (simp_all add: list_all_iff)
  show ?thesis
    using assms(1) hd inf
    by (simp add: parse_decimal_def Let_def tw parse_exponent_Nil)
qed

lemma parse_decimal_fraction:
  assumes "a \<noteq> []" "list_all is_digit a" "list_all is_digit b"
  shows "\<exists>d. parse_decimal (a @ CHR ''.'' # b) = Some (d, [])"
proof -
  obtain c a' where a: "a = c # a'"
    using assms(1) by (cases a) auto
  with assms(2) have c: "is_digit c" by simp
  have hd: "hd (a @ CHR ''.'' # b) \<noteq> CHR ''-''" "hd (a @ CHR ''.'' # b) \<noteq> CHR ''+''"
    using c a by (simp_all add: is_digit_not_special)
  have inf: "take 8 (a @ CHR ''.'' # b) \<noteq> ''Infinity''"
    using digits_not_Infinity [OF assms(1,2)] by blast
  have tw: "takeWhile is_digit (a @ CHR ''.'' # b) = a" "dropWhile is_digit (a @ CHR ''.'' # b) = ''.'' @ b"
    using assms(2) by (simp_all add: list_all_iff takeWhile_append2 dropWhile_append2 not_digit_dot)
  have twb: "takeWhile is_digit b = b" "dropWhile is_digit b = []"
    using assms(3) by (simp_all add: list_all_iff)
  show ?thesis
    using assms(1) hd inf
    by (simp add: parse_decimal_def Let_def tw twb parse_exponent_Nil)
qed

lemma unsigned_lit_literal: "unsigned_lit s \<Longrightarrow> is_numeric_literal s"
  unfolding unsigned_lit_def is_numeric_literal_def
  using parse_decimal_digits parse_decimal_fraction by fastforce

lemma parse_decimal_minus_digits:
  assumes "a \<noteq> []" "list_all is_digit a"
  shows "\<exists>d. parse_decimal (CHR ''-'' # a) = Some (d, [])"
proof -
  have inf: "take 8 a \<noteq> ''Infinity''"
    using digits_not_Infinity [OF assms, of "[]"] by simp
  have tw: "takeWhile is_digit a = a" "dropWhile is_digit a = []"
    using assms(2) by (simp_all add: list_all_iff)
  show ?thesis
    using assms(1) inf by (simp add: parse_decimal_def Let_def tw parse_exponent_Nil)
qed

lemma parse_decimal_minus_fraction:
  assumes "a \<noteq> []" "list_all is_digit a" "list_all is_digit b"
  shows "\<exists>d. parse_decimal (CHR ''-'' # a @ CHR ''.'' # b) = Some (d, [])"
proof -
  have inf: "take 8 (a @ CHR ''.'' # b) \<noteq> ''Infinity''"
    using digits_not_Infinity [OF assms(1,2)] by blast
  have tw: "takeWhile is_digit (a @ CHR ''.'' # b) = a" "dropWhile is_digit (a @ CHR ''.'' # b) = ''.'' @ b"
    using assms(2) by (simp_all add: list_all_iff takeWhile_append2 dropWhile_append2 not_digit_dot)
  have twb: "takeWhile is_digit b = b" "dropWhile is_digit b = []"
    using assms(3) by (simp_all add: list_all_iff)
  show ?thesis
    using assms(1) inf by (simp add: parse_decimal_def Let_def tw twb parse_exponent_Nil)
qed

lemma parse_decimal_minus:
  assumes "unsigned_lit t"
  shows "\<exists>d. parse_decimal (''-'' @ t) = Some (d, [])"
proof -
  from assms obtain a b where ab: "a \<noteq> []" "list_all is_digit a" "list_all is_digit b"
    "t = a \<or> t = a @ CHR ''.'' # b"
    unfolding unsigned_lit_def by blast
  from ab(4) show ?thesis
  proof
    assume "t = a"
    then show ?thesis
      using parse_decimal_minus_digits [OF ab(1,2)] by simp
  next
    assume "t = a @ CHR ''.'' # b"
    then show ?thesis
      using parse_decimal_minus_fraction [OF ab(1,2,3)] by simp
  qed
qed

lemma signed_lit_literal: "signed_lit s \<Longrightarrow> is_numeric_literal s"
  unfolding signed_lit_def
  using unsigned_lit_literal parse_decimal_minus
  by (fastforce simp: is_numeric_literal_def)



lemma entry_token_cases:
  "v \<in> set entry_tokens \<Longrightarrow> (\<exists>c. v = [c] \<and> is_digit c) \<or> v = ''.''"
  by (auto simp: entry_tokens_def is_digit_def)

lemma unsigned_lit_single: "is_digit c \<Longrightarrow> unsigned_lit [c]"
  unfolding unsigned_lit_def
  by (rule exI [of _ "[c]"], rule exI [of _ "[]"]) simp

lemma unsigned_lit_zero: "unsigned_lit ''0''"
  by (rule unsigned_lit_single) (simp add: is_digit_def)

lemma unsigned_lit_snoc_digit:
  assumes "unsigned_lit s" "is_digit c"
  shows "unsigned_lit (s @ [c])"
proof -
  from assms(1) obtain a b where ab: "a \<noteq> []" "list_all is_digit a" "list_all is_digit b"
    "s = a \<or> s = a @ CHR ''.'' # b"
    unfolding unsigned_lit_def by blast
  from ab(4) show ?thesis
  proof
    assume "s = a"
    then show ?thesis
      unfolding unsigned_lit_def
      using ab assms(2) by (intro exI [of _ "a @ [c]"] exI [of _ "[]"]) simp
  next
    assume "s = a @ CHR ''.'' # b"
    then show ?thesis
      unfolding unsigned_lit_def
      using ab assms(2) by (intro exI [of _ a] exI [of _ "b @ [c]"]) simp
  qed
qed

lemma unsigned_lit_snoc_dot:
  assumes "unsigned_lit s" "CHR ''.'' \<notin> set s"
  shows "unsigned_lit (s @ ''.'')"
proof -
  from assms(1) obtain a b where ab: "a \<noteq> []" "list_all is_digit a" "list_all is_digit b"
    "s = a \<or> s = a @ CHR ''.'' # b"
    unfolding unsigned_lit_def by blast
  with assms(2) have "s = a" by auto
  then show ?thesis
    unfolding unsigned_lit_def
    using ab by (intro exI [of _ a] exI [of _ "[]"]) simp
qed

lemma unsigned_lit_butlast:
  assumes "unsigned_lit s" "1 < length s"
  shows "unsigned_lit (butlast s)"
proof -
  from assms(1) obtain a b where ab: "a \<noteq> []" "list_all is_digit a" "list_all is_digit b"
    "s = a \<or> s = a @ CHR ''.'' # b"
    unfolding unsigned_lit_def by blast
  from ab(4) show ?thesis
  proof
    assume s: "s = a"
    with assms(2) have "butlast a \<noteq> []"
      by (cases a rule: rev_cases) auto
    moreover have "list_all is_digit (butlast a)"
      using ab(2) by (auto simp: list_all_iff dest: in_set_butlastD)
    ultimately show ?thesis
      unfolding unsigned_lit_def s by (intro exI [of _ "butlast a"] exI [of _ "[]"]) simp
  next
    assume s: "s = a @ CHR ''.'' # b"
    show ?thesis
    proof (cases "b = []")
      case True
      then show ?thesis
        unfolding unsigned_lit_def s using ab by (intro exI [of _ a] exI [of _ "[]"]) simp
    next
      case False
      have "list_all is_digit (butlast b)"
        using ab(3) by (auto simp: list_all_iff dest: in_set_butlastD)
      then show ?thesis
        unfolding unsigned_lit_def s using ab False
        by (intro exI [of _ a] exI [of _ "butlast b"]) (simp add: butlast_append)
    qed
  qed
qed

lemma unsigned_lit_hd: "unsigned_lit s \<Longrightarrow> take 1 s \<noteq> ''-'' \<and> s \<noteq> []"
  unfolding unsigned_lit_def
  by (auto simp: take_Suc_conv_app_nth neq_Nil_conv is_digit_def)

lemma signed_lit_hd: "signed_lit s \<Longrightarrow> s \<noteq> []"
  unfolding signed_lit_def using unsigned_lit_hd by auto

lemma signed_lit_snoc_digit: "signed_lit s \<Longrightarrow> is_digit c \<Longrightarrow> signed_lit (s @ [c])"
  unfolding signed_lit_def using unsigned_lit_snoc_digit by fastforce

lemma signed_lit_snoc_dot: "signed_lit s \<Longrightarrow> CHR ''.'' \<notin> set s \<Longrightarrow> signed_lit (s @ ''.'')"
  unfolding signed_lit_def using unsigned_lit_snoc_dot by fastforce

lemma signed_lit_toggle:
  assumes "signed_lit s"
  shows "signed_lit (if take 1 s = ''-'' then drop 1 s else ''-'' @ s)"
proof -
  from assms consider "unsigned_lit s" | t where "s = ''-'' @ t" "unsigned_lit t"
    unfolding signed_lit_def by blast
  then show ?thesis
  proof cases
    case 1
    then show ?thesis
      using unsigned_lit_hd [OF 1] by (auto simp: signed_lit_def)
  next
    case 2
    then show ?thesis
      by (simp add: signed_lit_def)
  qed
qed

lemma press_clear: "press fits ''C'' st = clear st"
  by (simp add: press_def handleButtonClick_def)

lemma press_backspace: "press fits ''Backspace'' st = backspace st"
  by (simp add: press_def)

lemma press_toggle: "press fits plus_minus_sign st = toggleSign fits st"
  by (simp add: press_def handleButtonClick_def plus_minus_sign_def)

lemma inputNumber_cases:
  assumes "\<not> shouldResetInput st"
  shows "inputNumber fits v st = st \<or>
         (inputNumber fits v st = st\<lparr>currentInput := v\<rparr> \<and> v \<noteq> ''.'') \<or>
         (inputNumber fits v st = st\<lparr>currentInput := currentInput st @ v\<rparr> \<and>
          (v = ''.'' \<longrightarrow> CHR ''.'' \<notin> set (currentInput st)))"
  using assms by (simp add: inputNumber_def)

lemma editing_inputNumber:
  assumes "editing st" "v \<in> set entry_tokens"
  shows "editing (inputNumber fits v st)"
proof -
  have nr: "\<not> shouldResetInput st" and ul: "unsigned_lit (currentInput st)"
    using assms(1) by (simp_all add: editing_def)
  from inputNumber_cases [OF nr, of fits v] consider
      (same) "inputNumber fits v st = st"
    | (fresh) "inputNumber fits v st = st\<lparr>currentInput := v\<rparr>" "v \<noteq> ''.''"
    | (more) "inputNumber fits v st = st\<lparr>currentInput := currentInput st @ v\<rparr>"
        "v = ''.'' \<longrightarrow> CHR ''.'' \<notin> set (currentInput st)"
    by blast
  then show ?thesis
  proof cases
    case same
    then show ?thesis using assms(1) by simp
  next
    case fresh
    with entry_token_cases [OF assms(2)] obtain c where "v = [c]" "is_digit c" by blast
    then show ?thesis
      using fresh(1) nr unsigned_lit_single by (simp add: editing_def)
  next
    case more
    from entry_token_cases [OF assms(2)] have "unsigned_lit (currentInput st @ v)"
    proof
      assume "\<exists>c. v = [c] \<and> is_digit c"
      then show ?thesis using unsigned_lit_snoc_digit [OF ul] by blast
    next
      assume "v = ''.''"
      then show ?thesis using unsigned_lit_snoc_dot [OF ul] more(2) by blast
    qed
    then show ?thesis
      using more(1) nr by (simp add: editing_def)
  qed
qed

lemma signed_editing_inputNumber:
  assumes "signed_editing st" "v \<in> set entry_tokens"
  shows "signed_editing (inputNumber fits v st)"
proof -
  have nr: "\<not> shouldResetInput st" and sl: "signed_lit (currentInput st)"
    using assms(1) by (simp_all add: signed_editing_def)
  from inputNumber_cases [OF nr, of fits v] consider
      (same) "inputNumber fits v st = st"
    | (fresh) "inputNumber fits v st = st\<lparr>currentInput := v\<rparr>" "v \<noteq> ''.''"
    | (more) "inputNumber fits v st = st\<lparr>currentInput := currentInput st @ v\<rparr>"
        "v = ''.'' \<longrightarrow> CHR ''.'' \<notin> set (currentInput st)"
    by blast
  then show ?thesis
  proof cases
    case same
    then show ?thesis using assms(1) by simp
  next
    case fresh
    with entry_token_cases [OF assms(2)] obtain c where "v = [c]" "is_digit c" by blast
    then show ?thesis
      using fresh(1) nr unsigned_lit_single by (simp add: signed_editing_def signed_lit_def)
  next
    case more
    from entry_token_cases [OF assms(2)] have "signed_lit (currentInput st @ v)"
    proof
      assume "\<exists>c. v = [c] \<and> is_digit c"
      then show ?thesis using signed_lit_snoc_digit [OF sl] by blast
    next
      assume "v = ''.''"
      then show ?thesis using signed_lit_snoc_dot [OF sl] more(2) by blast
    qed
    then show ?thesis
      using more(1) nr by (simp add: signed_editing_def)
  qed
qed

lemma editing_clear: "editing (clear st)"
  by (simp add: editing_def clear_def unsigned_lit_zero)

lemma editing_backspace: "editing st \<Longrightarrow> editing (backspace st)"
  by (simp add: editing_def backspace_def unsigned_lit_zero unsigned_lit_butlast)

lemma signed_editing_clear: "signed_editing (clear st)"
  by (simp add: signed_editing_def clear_def signed_lit_def unsigned_lit_zero)

lemma signed_lit_zero: "signed_lit ''0''"
  by (simp add: signed_lit_def unsigned_lit_zero)

lemma signed_editing_toggleSign:
  assumes "signed_editing st"
  shows "signed_editing (toggleSign fits st)"
proof -
  have "signed_lit (if take 1 (currentInput st) = ''-'' then drop 1 (currentInput st)
                    else ''-'' @ currentInput st)"
    using assms signed_lit_toggle by (simp only: signed_editing_def)
  then show ?thesis
    using assms by (simp add: signed_editing_def toggleSign_def Let_def signed_lit_zero)
qed

lemma editing_run:
  "editing st \<Longrightarrow> set vs \<subseteq> set entry_tokens \<union> {''C'', ''Backspace''} \<Longrightarrow> editing (run fits vs st)"
proof (induction vs arbitrary: st)
  case Nil
  then show ?case by (simp add: run_Nil)
next
  case (Cons v vs)
  have "editing (press fits v st)"
  proof -
    from Cons.prems(2) consider "v \<in> set entry_tokens" | "v = ''C''" | "v = ''Backspace''"
      by auto
    then show ?thesis
      using Cons.prems(1)
      by cases (simp_all add: press_digit press_clear press_backspace editing_inputNumber
          editing_clear editing_backspace)
  qed
  then show ?case
    using Cons by (simp add: run_Cons)
qed

lemma signed_editing_run:
  "signed_editing st \<Longrightarrow> set vs \<subseteq> set entry_tokens \<union> {''C'', plus_minus_sign} \<Longrightarrow>
   signed_editing (run fits vs st)"
proof (induction vs arbitrary: st)
  case Nil
  then show ?case by (simp add: run_Nil)
next
  case (Cons v vs)
  have "signed_editing (press fits v st)"
  proof -
    from Cons.prems(2) consider "v \<in> set entry_tokens" | "v = ''C''" | "v = plus_minus_sign"
      by auto
    then show ?thesis
      using Cons.prems(1)
      by cases (simp_all add: press_digit press_clear press_toggle signed_editing_inputNumber
          signed_editing_clear signed_editing_toggleSign)
  qed
  then show ?case
    using Cons by (simp add: run_Cons)
qed

text \<open>
  C4, amended: in every state reached from the initial state by digit and decimal
  entry and clear, together with either backspace or the sign toggle (not both, and
  without operator entry, equals and percentage), \<open>currentInput\<close> is a valid numeric
  literal, whatever the display accepts.
\<close>

theorem literal_invariant:
  "(set vs \<subseteq> set entry_tokens \<union> {''C'', ''Backspace''} \<longrightarrow>
      is_numeric_literal (currentInput (run fits vs initial))) \<and>
   (set vs \<subseteq> set entry_tokens \<union> {''C'', plus_minus_sign} \<longrightarrow>
      is_numeric_literal (currentInput (run fits vs initial)))"
proof -
  have a: "editing initial"
    by (simp add: editing_def initial_def unsigned_lit_zero)
  have b: "signed_editing initial"
    by (simp add: signed_editing_def signed_lit_def initial_def unsigned_lit_zero)
  show ?thesis
    using editing_run [OF a, of vs fits] signed_editing_run [OF b, of vs fits]
    by (auto simp: editing_def signed_editing_def unsigned_lit_literal signed_lit_literal)
qed

theorem literal_invariant_witness:
  "set [''1'', ''2'', ''.'', ''5'', ''Backspace'', ''Backspace''] \<subseteq> set entry_tokens \<union> {''C'', ''Backspace''} \<and>
   is_numeric_literal (currentInput (run (display_of_width 16)
      [''1'', ''2'', ''.'', ''5'', ''Backspace'', ''Backspace''] initial)) \<and>
   set [''7'', plus_minus_sign, ''.'', ''5''] \<subseteq> set entry_tokens \<union> {''C'', plus_minus_sign} \<and>
   is_numeric_literal (currentInput (run (display_of_width 16) [''7'', plus_minus_sign, ''.'', ''5''] initial)) \<and>
   currentInput (run (display_of_width 16) [''7'', plus_minus_sign, ''.'', ''5''] initial) = ''-7.5''"
proof -
  have a: "set [''1'', ''2'', ''.'', ''5'', ''Backspace'', ''Backspace''] \<subseteq> set entry_tokens \<union> {''C'', ''Backspace''}"
    by (simp add: entry_tokens_def)
  have b: "set [''7'', plus_minus_sign, ''.'', ''5''] \<subseteq> set entry_tokens \<union> {''C'', plus_minus_sign}"
    by (simp add: entry_tokens_def)
  have c: "currentInput (run (display_of_width 16) [''7'', plus_minus_sign, ''.'', ''5''] initial) = ''-7.5''"
    by code_simp
  from literal_invariant [of "[''1'', ''2'', ''.'', ''5'', ''Backspace'', ''Backspace'']" "display_of_width 16"]
       literal_invariant [of "[''7'', plus_minus_sign, ''.'', ''5'']" "display_of_width 16"] a b c
  show ?thesis by simp
qed

text \<open>
  C4, as stated: \<open>currentInput\<close> is always a numeric literal, \<open>0\<close> or \<open>Error\<close>. It is
  not: \<open>5\<close>, sign toggle, backspace leaves the lone minus sign.
\<close>

theorem invariant_counterexample:
  "set [''5'', plus_minus_sign, ''Backspace''] \<subseteq> set entry_tokens \<union> {''C'', plus_minus_sign, ''Backspace''} \<and>
   currentInput (run (display_of_width 16) [''5'', plus_minus_sign, ''Backspace''] initial) = ''-'' \<and>
   \<not> is_numeric_literal ''-'' \<and> ''-'' \<noteq> ''0'' \<and> ''-'' \<noteq> ''Error''"
  by code_simp

text \<open>
  Why the amended statement leaves out operator entry, equals and percentage: a decimal
  point typed right after an operator stands alone, the sign toggle applies to the text
  \<open>Error\<close>, and the percentage of a lone point prints \<open>NaN\<close>.
\<close>

lemma operator_then_point:
  "currentInput (run (display_of_width 16) [''5'', ''+'', ''.''] initial) = ''.'' \<and>
   \<not> is_numeric_literal ''.''"
  by code_simp

lemma error_then_sign:
  "currentInput (run (display_of_width 16) [''5'', divide_sign, ''0'', ''='', plus_minus_sign] initial) =
     ''-Error''"
  by code_simp

lemma point_then_percentage:
  "currentInput (run (display_of_width 16) [''5'', ''+'', ''.'', ''%''] initial) = ''NaN''"
  by code_simp

section \<open>Properties of the converter\<close>

text \<open>
  C5. \<open>convertValue\<close> returns \<open>0\<close> when the value is \<open>NaN\<close>, when the category has no
  unit list, and when either index has no element in the category's unit list. The
  function has no failing branch.
\<close>

theorem convertValue_failures:
  "(isNaN v \<longrightarrow> convertValue v i j category = of_int_d 0) \<and>
   (map_of UNIT_DEFINITIONS category = None \<longrightarrow> convertValue v i j category = of_int_d 0) \<and>
   (map_of UNIT_DEFINITIONS category = Some units \<and> (array_get units i = None \<or> array_get units j = None)
      \<longrightarrow> convertValue v i j category = of_int_d 0)"
  by (auto simp: convertValue_def lookup_units_def array_get_def split: option.splits)

theorem convertValue_failures_witness:
  "isNaN NaN \<and> convertValue NaN (of_int_d 0) (of_int_d 1) ''length'' = of_int_d 0 \<and>
   map_of UNIT_DEFINITIONS ''speed'' = None \<and>
   convertValue (of_int_d 5) (of_int_d 0) (of_int_d 1) ''speed'' = of_int_d 0 \<and>
   map_of UNIT_DEFINITIONS ''temperature'' = Some temperature_units \<and>
   array_get temperature_units (of_int_d 3) = None \<and>
   convertValue (of_int_d 5) (of_int_d 0) (of_int_d 3) ''temperature'' = of_int_d 0 \<and>
   array_get temperature_units (of_int_d (- 1)) = None \<and>
   convertValue (of_int_d 5) (of_int_d (- 1)) (of_int_d 0) ''temperature'' = of_int_d 0"
proof -
  have a: "isNaN NaN"
    by (simp add: isNaN_def)
  have b: "map_of UNIT_DEFINITIONS ''speed'' = None"
    by (simp add: UNIT_DEFINITIONS_def)
  have c: "map_of UNIT_DEFINITIONS ''temperature'' = Some temperature_units"
    by (simp add: UNIT_DEFINITIONS_def)
  have d: "array_get temperature_units (of_int_d 3) = None"
    by code_simp
  have e: "array_get temperature_units (of_int_d (- 1)) = None"
    by code_simp
  from convertValue_failures [of NaN "of_int_d 0" "of_int_d 1" "''length''"]
       convertValue_failures [of "of_int_d 5" "of_int_d 0" "of_int_d 1" "''speed''"]
       convertValue_failures [of "of_int_d 5" "of_int_d 0" "of_int_d 3" "''temperature''" temperature_units]
       convertValue_failures [of "of_int_d 5" "of_int_d (- 1)" "of_int_d 0" "''temperature''" temperature_units]
       a b c d e
  show ?thesis by simp
qed

text \<open>
  C6. In the temperature category 0 Celsius is exactly 32 Fahrenheit, 100 Celsius is
  exactly 212 Fahrenheit and 0 Celsius is exactly 273.15 Kelvin (indices 0, 1 and 2).
\<close>

theorem temperature_fixed_points:
  "convertValue (of_int_d 0) (of_int_d 0) (of_int_d 1) ''temperature'' = of_int_d 32 \<and>
   convertValue (of_int_d 100) (of_int_d 0) (of_int_d 1) ''temperature'' = of_int_d 212 \<and>
   convertValue (of_int_d 0) (of_int_d 0) (of_int_d 2) ''temperature'' = dec_lit 27315 2"
  by code_simp

subsection \<open>Exact rounding and the conversion identity\<close>

lemma bitlen_0: "bitlen 0 = 0"
  by (simp add: bitlen.simps)

lemma bitlen_rec: "0 < n \<Longrightarrow> bitlen n = 1 + bitlen (n div 2)"
  by (subst bitlen.simps) simp

lemma bitlen_bounds:
  "0 < n \<Longrightarrow> 1 \<le> bitlen n \<and> 2 ^ nat (bitlen n - 1) \<le> n \<and> n < 2 ^ nat (bitlen n)"
proof (induction n rule: bitlen.induct)
  case (1 n)
  show ?case
  proof (cases "n = 1")
    case True
    then show ?thesis
      by (simp add: bitlen_rec bitlen_0)
  next
    case False
    with "1.prems" have pos: "0 < n div 2" by simp
    from "1.prems" have "\<not> n \<le> 0" by simp
    from "1.IH" [OF this pos] have ih: "1 \<le> bitlen (n div 2)"
      "2 ^ nat (bitlen (n div 2) - 1) \<le> n div 2" "n div 2 < 2 ^ nat (bitlen (n div 2))"
      by simp_all
    define b where "b = bitlen (n div 2)"
    have bn: "bitlen n = 1 + b"
      using "1.prems" by (simp add: bitlen_rec b_def)
    have nb: "nat b = Suc (nat (b - 1))"
      using ih(1) by (simp add: b_def)
    have lo: "2 ^ nat b \<le> n"
    proof -
      have "(2::int) ^ nat b = 2 * 2 ^ nat (b - 1)" by (simp add: nb)
      also have "\<dots> \<le> 2 * (n div 2)" using ih(2) by (simp add: b_def)
      also have "\<dots> \<le> n" by simp
      finally show ?thesis .
    qed
    have hi: "n < 2 ^ nat (1 + b)"
    proof -
      have "n div 2 + 1 \<le> 2 ^ nat b" using ih(3) by (simp add: b_def)
      then have "2 * (n div 2) + 2 \<le> 2 * 2 ^ nat b" by simp
      moreover have "n < 2 * (n div 2) + 2" by presburger
      moreover have "nat (1 + b) = Suc (nat b)" using ih(1) by (simp add: b_def)
      ultimately show ?thesis by simp
    qed
    show ?thesis
      using ih(1) lo hi by (simp add: bn b_def)
  qed
qed

lemma bitlen_powi:
  assumes "0 < n"
  shows "(2::real) powi (bitlen n - 1) \<le> of_int n" "(of_int n :: real) < 2 powi (bitlen n)"
proof -
  from bitlen_bounds [OF assms] have b: "1 \<le> bitlen n" "2 ^ nat (bitlen n - 1) \<le> n"
    "n < 2 ^ nat (bitlen n)" by simp_all
  have "(of_int (2 ^ nat (bitlen n - 1)) :: real) \<le> of_int n"
    using b(2) by (simp only: of_int_le_iff)
  then show "(2::real) powi (bitlen n - 1) \<le> of_int n"
    using b(1) by (simp add: power_int_nonneg_exp)
  have "(of_int n :: real) < of_int (2 ^ nat (bitlen n))"
    using b(3) by (simp only: of_int_less_iff)
  then show "(of_int n :: real) < 2 powi (bitlen n)"
    using b(1) by (simp add: power_int_nonneg_exp)
qed

lemma pow2_powi: "(of_int (pow2 a) :: real) / of_int (pow2 (- a)) = 2 powi a"
proof (cases "0 \<le> a")
  case True
  then have "nat (- a) = 0" by simp
  then have "(of_int (pow2 a) :: real) / of_int (pow2 (- a)) = 2 ^ nat a"
    by (simp add: pow2_def)
  also have "\<dots> = 2 powi a"
    using True by (simp only: power_int_nonneg_exp)
  finally show ?thesis .
next
  case False
  then have "nat a = 0" by simp
  then have "(of_int (pow2 a) :: real) / of_int (pow2 (- a)) = inverse 2 ^ nat (- a)"
    by (simp add: pow2_def power_one_over)
  also have "\<dots> = 2 powi a"
    using False by (simp add: power_int_def)
  finally show ?thesis .
qed

lemma pow2_rat_pos: "0 < (of_int (pow2 a) :: real)"
  using pow2_pos [of a] by simp

lemma ilog2_test:
  assumes "0 < p" "0 < q"
  shows "(q * pow2 d \<le> p * pow2 (- d)) \<longleftrightarrow> ((2::real) powi d \<le> of_int p / of_int q)"
proof -
  have "(q * pow2 d \<le> p * pow2 (- d)) \<longleftrightarrow>
        ((of_int q :: real) * of_int (pow2 d) \<le> of_int p * of_int (pow2 (- d)))"
    by (simp only: of_int_le_iff [symmetric, where 'a = real] of_int_mult)
  also have "\<dots> \<longleftrightarrow> ((of_int (pow2 d) :: real) / of_int (pow2 (- d)) \<le> of_int p / of_int q)"
    using assms pow2_rat_pos [of "- d"] by (simp add: field_simps)
  finally show ?thesis by (simp only: pow2_powi)
qed

lemma ilog2_bounds:
  assumes "0 < p" "0 < q"
  shows "(2::real) powi (ilog2 p q) \<le> of_int p / of_int q"
    and "(of_int p :: real) / of_int q < 2 powi (ilog2 p q + 1)"
proof -
  define d where "d = bitlen p - bitlen q"
  let ?x = "(of_int p :: real) / of_int q"
  have qpos: "0 < (of_int q :: real)" and ppos: "0 < (of_int p :: real)"
    using assms by simp_all
  have up: "?x < 2 powi (d + 1)"
  proof -
    have "?x < 2 powi (bitlen p) / of_int q"
      using bitlen_powi(2) [OF assms(1)] qpos by (simp add: divide_strict_right_mono)
    also have "\<dots> \<le> 2 powi (bitlen p) / 2 powi (bitlen q - 1)"
      using bitlen_powi(1) [OF assms(2)] qpos by (intro divide_left_mono) simp_all
    also have "\<dots> = 2 powi (d + 1)"
      by (simp add: d_def power_int_diff [symmetric] algebra_simps)
    finally show ?thesis .
  qed
  have low: "2 powi (d - 1) \<le> ?x"
  proof -
    have "(2::real) powi (d - 1) = 2 powi (bitlen p - 1) / 2 powi (bitlen q)"
      by (simp add: d_def power_int_diff [symmetric] algebra_simps)
    also have "\<dots> \<le> of_int p / 2 powi (bitlen q)"
      using bitlen_powi(1) [OF assms(1)] by (simp add: divide_right_mono)
    also have "\<dots> \<le> ?x"
      using bitlen_powi(2) [OF assms(2)] ppos qpos by (intro divide_left_mono) simp_all
    finally show ?thesis .
  qed
  show "(2::real) powi (ilog2 p q) \<le> ?x"
    using low ilog2_test [OF assms, of d]
    by (simp add: ilog2_def Let_def d_def [symmetric])
  show "?x < 2 powi (ilog2 p q + 1)"
    using up ilog2_test [OF assms, of d]
    by (simp add: ilog2_def Let_def d_def [symmetric] not_le)
qed

lemma powi_unique:
  fixes x :: real
  assumes "2 powi a \<le> x" "x < 2 powi (a + 1)" "2 powi b \<le> x" "x < 2 powi (b + 1)"
  shows "a = b"
proof (rule ccontr)
  assume "a \<noteq> b"
  then consider "a + 1 \<le> b" | "b + 1 \<le> a" by linarith
  then show False
  proof cases
    case 1
    then have "(2::real) powi (a + 1) \<le> 2 powi b" by (intro power_int_increasing) simp_all
    with assms show False by linarith
  next
    case 2
    then have "(2::real) powi (b + 1) \<le> 2 powi a" by (intro power_int_increasing) simp_all
    with assms show False by linarith
  qed
qed

lemma ilog2_exact:
  assumes "0 < m" "0 < P" "0 < Q" "(of_int P :: real) / of_int Q = of_int m * 2 powi e"
  shows "ilog2 P Q = bitlen m - 1 + e"
proof -
  let ?x = "(of_int P :: real) / of_int Q"
  have pe: "0 < (2::real) powi e" by simp
  have "(2::real) powi (bitlen m - 1 + e) = 2 powi (bitlen m - 1) * 2 powi e"
    by (simp add: power_int_add)
  also have "\<dots> \<le> of_int m * 2 powi e"
    using bitlen_powi(1) [OF assms(1)] pe by (simp add: mult_right_mono)
  finally have lo: "(2::real) powi (bitlen m - 1 + e) \<le> ?x"
    using assms(4) by simp
  have "of_int m * (2::real) powi e < 2 powi (bitlen m) * 2 powi e"
    using bitlen_powi(2) [OF assms(1)] pe by (simp add: mult_strict_right_mono)
  also have "\<dots> = 2 powi (bitlen m - 1 + e + 1)"
    by (simp add: power_int_add [symmetric] algebra_simps)
  finally have hi: "?x < 2 powi (bitlen m - 1 + e + 1)"
    using assms(4) by simp
  from powi_unique [OF ilog2_bounds(1) [OF assms(2,3)] ilog2_bounds(2) [OF assms(2,3)] lo hi]
  show ?thesis .
qed

lemma bitlen_53:
  assumes "0 < m" "m < 2 ^ 53"
  shows "bitlen m \<le> 53" "2 ^ 52 \<le> m \<Longrightarrow> bitlen m = 53" "m < 2 ^ 52 \<Longrightarrow> bitlen m \<le> 52"
proof -
  from bitlen_bounds [OF assms(1)] have b: "1 \<le> bitlen m" "2 ^ nat (bitlen m - 1) \<le> m"
    "m < 2 ^ nat (bitlen m)" by simp_all
  show le: "bitlen m \<le> 53"
  proof (rule ccontr)
    assume "\<not> bitlen m \<le> 53"
    then have "53 \<le> nat (bitlen m - 1)" by simp
    then have "(2::int) ^ 53 \<le> 2 ^ nat (bitlen m - 1)"
      by (intro power_increasing) simp_all
    with b(2) assms(2) show False by linarith
  qed
  show "bitlen m = 53" if "2 ^ 52 \<le> m"
  proof (rule ccontr)
    assume "bitlen m \<noteq> 53"
    with le have "nat (bitlen m) \<le> 52" by simp
    then have "(2::int) ^ nat (bitlen m) \<le> 2 ^ 52"
      by (intro power_increasing) simp_all
    with b(3) that show False by linarith
  qed
  show "bitlen m \<le> 52" if "m < 2 ^ 52"
  proof (rule ccontr)
    assume "\<not> bitlen m \<le> 52"
    then have "52 \<le> nat (bitlen m - 1)" by simp
    then have "(2::int) ^ 52 \<le> 2 ^ nat (bitlen m - 1)"
      by (intro power_increasing) simp_all
    with b(2) that show False by linarith
  qed
qed

lemma round_exact:
  assumes v: "valid_double (Fin s m e)" and m: "0 < m" and Q: "0 < Q"
    and x: "(of_int P :: real) / of_int Q = of_int m * 2 powi e"
  shows "round_double s P Q = Fin s m e"
proof -
  from v have vm: "m < 2 ^ 53" and ve: "- 1074 \<le> e" "e \<le> 971" and sub: "m < 2 ^ 52 \<Longrightarrow> e = - 1074"
    by (simp_all add: valid_double_def)
  have "0 < (of_int m :: real) * 2 powi e" using m by simp
  then have "0 < (of_int P :: real) / of_int Q" by (simp only: x)
  moreover have "0 < (of_int Q :: real)" using Q by simp
  ultimately have "0 < (of_int P :: real)"
    by (simp add: zero_less_divide_iff)
  then have P: "0 < P" by simp
  have E: "ilog2 P Q = bitlen m - 1 + e"
    using ilog2_exact [OF m P Q x] .
  have u: "max (ilog2 P Q) (- 1022) - 52 = e"
  proof (cases "2 ^ 52 \<le> m")
    case True
    then show ?thesis
      using bitlen_53(2) [OF m vm] ve by (simp add: E)
  next
    case False
    then have "m < 2 ^ 52" by simp
    then show ?thesis
      using bitlen_53(3) [OF m vm] sub by (simp add: E)
  qed
  have "(of_int P :: real) * of_int (pow2 (- e)) = of_int m * (of_int Q * of_int (pow2 e))"
  proof -
    have "(of_int P :: real) = of_int m * (of_int (pow2 e) / of_int (pow2 (- e))) * of_int Q"
      using x Q by (simp add: pow2_powi field_simps)
    then show ?thesis
      using pow2_rat_pos [of "- e"] by (simp add: field_simps)
  qed
  then have "(of_int (P * pow2 (- e)) :: real) = of_int (m * (Q * pow2 e))"
    by simp
  then have PQ: "P * pow2 (- e) = m * (Q * pow2 e)"
    by (simp only: of_int_eq_iff)
  have Qe: "0 < Q * pow2 e"
    using Q pow2_pos [of e] by simp
  have Qn: "Q * pow2 e \<noteq> 0" using Qe by (rule less_imp_neq [THEN not_sym])
  have dv: "(P * pow2 (- e)) div (Q * pow2 e) = m"
    unfolding PQ using Qn by (rule nonzero_mult_div_cancel_right)
  have md: "(P * pow2 (- e)) mod (Q * pow2 e) = 0"
    unfolding PQ by simp
  have ne: "m \<noteq> 2 ^ 53" using vm by simp
  have nz: "Q \<noteq> 0" "pow2 e \<noteq> 0"
    using Q pow2_pos [of e] by simp_all
  show ?thesis
    using P Qe ne ve(2) vm nz
    by (simp add: round_double_def Let_def u dv md)
qed


lemma pow2_quot:
  "(of_int (c * pow2 k) :: real) / of_int (d * pow2 (- k)) = of_int c / of_int d * 2 powi k"
proof -
  have "(of_int (c * pow2 k) :: real) / of_int (d * pow2 (- k)) =
      of_int c / of_int d * (of_int (pow2 k) / of_int (pow2 (- k)))"
    by simp
  then show ?thesis by (simp only: pow2_powi)
qed

lemma of_int_d_1: "of_int_d 1 = Fin False (2 ^ 52) (- 52)"
  by code_simp

lemma dmul_one:
  assumes "valid_double v"
  shows "dmul v (of_int_d 1) = v"
proof (cases v)
  case (Fin s m e)
  show ?thesis
  proof (cases "m = 0")
    case True
    with assms Fin have "e = - 1074" by (simp add: valid_double_def)
    with True Fin show ?thesis
      by (simp add: dmul_def of_int_d_1 round_double_def)
  next
    case False
    with assms Fin have m: "0 < m" by (simp add: valid_double_def)
    have k: "- (e + - 52) = - (e - 52)" "e + - 52 = e - 52" by simp_all
    have "52 + (e - 52) = e" by simp
    moreover have "(2::real) powi (52 + (e - 52)) = 2 powi 52 * 2 powi (e - 52)"
      by (rule power_int_add) simp
    ultimately have e1: "(2::real) powi 52 * 2 powi (e - 52) = 2 powi e"
      by (simp only:)
    have "(of_int (m * 2 ^ 52 * pow2 (e - 52)) :: real) / of_int (1 * pow2 (- (e - 52))) =
        of_int (m * 2 ^ 52) / of_int 1 * 2 powi (e - 52)"
      by (rule pow2_quot)
    also have "\<dots> = of_int m * (2 powi 52 * 2 powi (e - 52))"
      by simp
    also have "\<dots> = of_int m * 2 powi e"
      by (simp only: e1)
    finally have "(of_int (m * 2 ^ 52 * pow2 (e - 52)) :: real) / of_int (pow2 (- (e - 52))) =
        of_int m * 2 powi e"
      by simp
    from round_exact [OF _ m pow2_pos this, of s] assms Fin
    have "round_double s (m * 2 ^ 52 * pow2 (e + - 52)) (pow2 (- (e + - 52))) = Fin s m e"
      unfolding k by blast
    with Fin show ?thesis
      by (simp add: dmul_def of_int_d_1)
  qed
qed (simp_all add: dmul_def of_int_d_1)

lemma ddiv_one:
  assumes "valid_double v"
  shows "ddiv v (of_int_d 1) = v"
proof (cases v)
  case (Fin s m e)
  show ?thesis
  proof (cases "m = 0")
    case True
    with assms Fin have "e = - 1074" by (simp add: valid_double_def)
    with True Fin show ?thesis
      by (simp add: ddiv_def of_int_d_1 round_double_def)
  next
    case False
    with assms Fin have m: "0 < m" by (simp add: valid_double_def)
    have k: "- 52 - e = - (e + 52)" "e - - 52 = e + 52" by simp_all
    have "e + 52 - 52 = e" by simp
    moreover have "(2::real) powi (e + 52 - 52) = 2 powi (e + 52) / 2 powi 52"
      by (rule power_int_diff) simp
    ultimately have e2: "(2::real) powi (e + 52) / 2 powi 52 = 2 powi e"
      by (simp only:)
    have q: "0 < 2 ^ 52 * pow2 (- (e + 52))"
      using pow2_pos [of "- (e + 52)"] by simp
    have "(of_int (m * pow2 (e + 52)) :: real) / of_int (2 ^ 52 * pow2 (- (e + 52))) =
        of_int m / of_int (2 ^ 52) * 2 powi (e + 52)"
      by (rule pow2_quot)
    also have "\<dots> = of_int m * (2 powi (e + 52) / 2 powi 52)"
      by simp
    also have "\<dots> = of_int m * 2 powi e"
      by (simp only: e2)
    finally have "round_double s (m * pow2 (e + 52)) (2 ^ 52 * pow2 (- (e + 52))) = Fin s m e"
      using round_exact [OF _ m q] assms Fin by blast
    then have "round_double s (m * pow2 (e - - 52)) (2 ^ 52 * pow2 (- 52 - e)) = Fin s m e"
      unfolding k .
    with Fin show ?thesis
      by (simp add: ddiv_def of_int_d_1)
  qed
qed (simp_all add: ddiv_def of_int_d_1)

lemma celsius_round_trip:
  "from_celsius (degree_sign @ ''C'') (to_celsius (degree_sign @ ''C'') v) = Some v"
  by (simp add: from_celsius_def to_celsius_def)

text \<open>
  C7, amended: for every finite double \<open>v\<close>, every category of the catalog and every
  index of a unit that is Celsius or has the factor 1 (the base units Meter, Gram, Liter
  and Second), converting the unit to itself returns \<open>v\<close> exactly.
\<close>

theorem conversion_identity_base_units:
  assumes "valid_double v" "is_finite v"
    and "map_of UNIT_DEFINITIONS category = Some units"
    and "array_get units i = Some u"
    and "(category = ''temperature'' \<and> abbr u = degree_sign @ ''C'') \<or>
         (category \<noteq> ''temperature'' \<and> factor u = Some (of_int_d 1))"
  shows "convertValue v i i category = v"
proof -
  have nn: "\<not> isNaN v"
    using assms(2) by (auto simp: is_finite_def isNaN_def)
  have lk: "lookup_units category = Some units"
    using assms(3) by (simp add: lookup_units_def)
  from assms(5) show ?thesis
  proof
    assume "category = ''temperature'' \<and> abbr u = degree_sign @ ''C''"
    then show ?thesis
      using nn lk assms(4) by (simp add: convertValue_def Let_def celsius_round_trip)
  next
    assume a: "category \<noteq> ''temperature'' \<and> factor u = Some (of_int_d 1)"
    then have "factor_num u = of_int_d 1"
      by (simp add: factor_num_def)
    then have "ddiv (dmul v (factor_num u)) (factor_num u) = v"
      using assms(1) by (simp add: dmul_one ddiv_one)
    then show ?thesis
      using nn lk assms(4) a by (simp add: convertValue_def Let_def)
  qed
qed

theorem conversion_identity_base_units_witness:
  "valid_double (dec_lit 25 1) \<and> is_finite (dec_lit 25 1) \<and>
   map_of UNIT_DEFINITIONS ''length'' = Some length_units \<and>
   array_get length_units (of_int_d 3) = Some (linear_unit ''Meter'' ''m'' (of_int_d 1)) \<and>
   ''length'' \<noteq> ''temperature'' \<and>
   factor (linear_unit ''Meter'' ''m'' (of_int_d 1)) = Some (of_int_d 1) \<and>
   convertValue (dec_lit 25 1) (of_int_d 3) (of_int_d 3) ''length'' = dec_lit 25 1 \<and>
   map_of UNIT_DEFINITIONS ''temperature'' = Some temperature_units \<and>
   array_get temperature_units (of_int_d 0) =
     Some \<lparr>name = ''Celsius'', abbr = degree_sign @ ''C'', factor = None\<rparr> \<and>
   convertValue (dec_lit 25 1) (of_int_d 0) (of_int_d 0) ''temperature'' = dec_lit 25 1"
proof -
  have v: "valid_double (dec_lit 25 1)" "is_finite (dec_lit 25 1)"
    by code_simp+
  have l: "map_of UNIT_DEFINITIONS ''length'' = Some length_units"
    by (simp add: UNIT_DEFINITIONS_def)
  have t: "map_of UNIT_DEFINITIONS ''temperature'' = Some temperature_units"
    by (simp add: UNIT_DEFINITIONS_def)
  have m: "array_get length_units (of_int_d 3) = Some (linear_unit ''Meter'' ''m'' (of_int_d 1))"
    by code_simp
  have c: "array_get temperature_units (of_int_d 0) =
      Some \<lparr>name = ''Celsius'', abbr = degree_sign @ ''C'', factor = None\<rparr>"
    by code_simp
  have f: "factor (linear_unit ''Meter'' ''m'' (of_int_d 1)) = Some (of_int_d 1)"
    by (simp add: linear_unit_def)
  have a: "abbr \<lparr>name = ''Celsius'', abbr = degree_sign @ ''C'', factor = None\<rparr> = degree_sign @ ''C''"
    by simp
  from conversion_identity_base_units [OF v l m] f
  have 1: "convertValue (dec_lit 25 1) (of_int_d 3) (of_int_d 3) ''length'' = dec_lit 25 1"
    by simp
  from conversion_identity_base_units [OF v t c] a
  have 2: "convertValue (dec_lit 25 1) (of_int_d 0) (of_int_d 0) ''temperature'' = dec_lit 25 1"
    by simp
  from v l t m c f 1 2 show ?thesis
    by simp
qed

text \<open>
  C7, as stated: converting a unit to itself returns the value exactly. It does not for
  3 inches: \<open>3 * 0.0254 / 0.0254\<close> is the double just below 3.
\<close>

theorem conversion_identity_counterexample:
  "valid_double (of_int_d 3) \<and> is_finite (of_int_d 3) \<and>
   map_of UNIT_DEFINITIONS ''length'' = Some length_units \<and>
   array_get length_units (of_int_d 7) = Some (linear_unit ''Inch'' ''in'' (dec_lit 254 4)) \<and>
   convertValue (of_int_d 3) (of_int_d 7) (of_int_d 7) ''length'' = Fin False 6755399441055743 (- 51) \<and>
   of_int_d 3 = Fin False 6755399441055744 (- 51) \<and>
   \<not> strict_eq (convertValue (of_int_d 3) (of_int_d 7) (of_int_d 7) ''length'') (of_int_d 3)"
  by code_simp

section \<open>Properties of \<open>limitOutputSize\<close>\<close>

lemma ascii_Nil: "ascii []"
  by (simp add: ascii_def)

lemma ascii_append: "ascii (s @ t) \<longleftrightarrow> ascii s \<and> ascii t"
  by (simp add: ascii_def)

lemma ascii_take: "ascii s \<Longrightarrow> ascii (take n s)"
  by (auto simp: ascii_def list_all_iff dest: in_set_takeD)

lemma ascii_drop: "ascii s \<Longrightarrow> ascii (drop n s)"
  by (auto simp: ascii_def list_all_iff dest: in_set_dropD)

lemma ascii_replicate_zero: "ascii (replicate n CHR ''0'')"
  by (simp add: ascii_def list_all_iff)

lemma getByteSize_ascii: "ascii s \<Longrightarrow> getByteSize s = length s"
  by (induction s) (simp_all add: ascii_def getByteSize_def)

lemma ascii_Cons: "ascii (c # s) \<longleftrightarrow> (of_char c :: nat) < 128 \<and> ascii s"
  by (simp add: ascii_def)

lemma digit_table_ascii: "k < 10 \<Longrightarrow> (of_char (''0123456789'' ! k) :: nat) < 128"
proof -
  assume "k < 10"
  then have "''0123456789'' ! k \<in> set ''0123456789''"
    by (intro nth_mem) simp
  moreover have "\<forall>c \<in> set ''0123456789''. (of_char c :: nat) < 128"
    by simp
  ultimately show ?thesis by blast
qed

lemma digit_char_ascii: "(of_char (digit_char (n mod 10)) :: nat) < 128"
  unfolding digit_char_def by (rule digit_table_ascii) simp

lemma digit_char_small_ascii: "n < 10 \<Longrightarrow> (of_char (digit_char n) :: nat) < 128"
  unfolding digit_char_def by (rule digit_table_ascii) simp

lemma ascii_dec_digits: "ascii (dec_digits n)"
proof (induction n rule: dec_digits.induct)
  case (1 n)
  show ?case
  proof (cases "n < 10")
    case True
    then show ?thesis
      by (subst dec_digits.simps) (simp add: ascii_def digit_char_small_ascii)
  next
    case False
    with 1 have "ascii (dec_digits (n div 10))" by simp
    with False show ?thesis
      by (subst dec_digits.simps) (simp add: ascii_def digit_char_ascii)
  qed
qed

lemma ascii_literals:
  "ascii ''NaN''" "ascii ''Infinity''" "ascii ''-Infinity''" "ascii ''-''" "ascii ''.''"
  "ascii ''e''" "ascii ''+''"
  by (simp_all add: ascii_def)

lemma ascii_to_exponential_fin: "ascii (to_exponential (Fin s m e) f)"
  unfolding to_exponential_def Let_def double.case
  by (intro ascii_append [THEN iffD2] conjI)
    (simp_all add: ascii_Cons ascii_Nil ascii_take ascii_drop ascii_dec_digits ascii_replicate_zero ascii_append)

lemma ascii_to_exponential: "ascii (to_exponential d f)"
proof (cases d)
  case (Fin s m e)
  then show ?thesis by (simp add: ascii_to_exponential_fin)
qed (simp_all add: to_exponential_def number_to_string_def ascii_literals)

lemma precision_loop_step:
  "precision_loop v (valueString, byteSize, precision) = r \<Longrightarrow>
   (8 < byteSize \<and> 0 \<le> precision \<and>
    precision_loop v (number_to_string (parseFloat (to_fixed v (nat precision))),
      getByteSize (number_to_string (parseFloat (to_fixed v (nat precision)))), precision - 1) = r) \<or>
   (\<not> (8 < byteSize \<and> 0 \<le> precision) \<and> r = (valueString, byteSize, precision))"
  by (subst (asm) precision_loop.simps) (auto simp: Let_def split: if_splits)

lemma precision_loop_inv:
  "precision_loop v st = (vs, bs, p) \<Longrightarrow> fst (snd st) = getByteSize (fst st) \<Longrightarrow>
   bs = getByteSize vs"
proof (induction v st rule: precision_loop.induct)
  case (1 v valueString byteSize precision)
  from precision_loop_step [OF "1.prems"(1)] show ?case
  proof
    assume a: "8 < byteSize \<and> 0 \<le> precision \<and>
      precision_loop v (number_to_string (parseFloat (to_fixed v (nat precision))),
        getByteSize (number_to_string (parseFloat (to_fixed v (nat precision)))), precision - 1) =
      (vs, bs, p)"
    then have c: "8 < byteSize \<and> 0 \<le> precision" by blast
    from a have l: "precision_loop v (number_to_string (parseFloat (to_fixed v (nat precision))),
        getByteSize (number_to_string (parseFloat (to_fixed v (nat precision)))), precision - 1) =
      (vs, bs, p)" by blast
    show ?thesis
      by (rule "1.IH" [OF c refl l]) simp
  next
    assume "\<not> (8 < byteSize \<and> 0 \<le> precision) \<and> (vs, bs, p) = (valueString, byteSize, precision)"
    with "1.prems"(2) show ?thesis by simp
  qed
qed

lemma precision_loop_byteSize:
  "precision_loop v (valueString, getByteSize valueString, precision) = (vs, bs, p) \<Longrightarrow>
   bs = getByteSize vs"
  using precision_loop_inv [of v "(valueString, getByteSize valueString, precision)" vs bs p] by simp

lemma hard_truncation: "getByteSize (take 7 (to_exponential v 2)) \<le> 7"
  by (simp add: getByteSize_ascii ascii_take ascii_to_exponential)

text \<open>
  C8. For every number \<open>v\<close> (finite or not) the text \<open>limitOutputSize v\<close> is at most 8
  bytes long. That covers the hard-truncation fallback: its at most 7 characters are
  one-byte characters (lemma \<open>hard_truncation\<close>).
\<close>

theorem limitOutputSize_budget: "getByteSize (limitOutputSize v) \<le> 8"
proof (cases "isNaN v")
  case True
  then show ?thesis by (simp add: limitOutputSize_def getByteSize_def)
next
  case False
  show ?thesis
  proof (cases "8 < getByteSize (number_to_string v)")
    case fits: False
    with False show ?thesis by (simp add: limitOutputSize_def Let_def)
  next
    case True
    obtain vs bs p where loop:
      "precision_loop v (number_to_string v, getByteSize (number_to_string v), 10) = (vs, bs, p)"
      by (cases "precision_loop v (number_to_string v, getByteSize (number_to_string v), 10)") auto
    have bs: "bs = getByteSize vs"
      using precision_loop_byteSize [OF loop] .
    have unfold: "limitOutputSize v =
        (if 8 < bs then
           (if 8 < getByteSize (to_exponential v 2) then take 7 (to_exponential v 2)
            else to_exponential v 2)
         else vs)"
      using False True loop by (simp add: limitOutputSize_def Let_def)
    have "getByteSize (take 7 (to_exponential v 2)) \<le> 8"
      using hard_truncation [of v] by simp
    then show ?thesis
      unfolding unfold using bs by simp
  qed
qed

end
